theory Spec2Isabelle
  imports Main "HOL-Library.Word"
begin

section \<open>Strings and settings\<close>

text \<open>
  A JavaScript string is a sequence of UTF-16 code units; \<open>length\<close> counts code units
  and \<open>indexOf\<close> compares them one by one.
\<close>

type_synonym jsstring = "16 word list"

definition js :: "string \<Rightarrow> jsstring" where
  "js s = map of_char s"

text \<open>\<open>String.prototype.indexOf\<close>: the smallest position at which the search string
  occurs, or \<open>-1\<close>. The empty search string occurs at position 0.\<close>

fun indexOf_from :: "int \<Rightarrow> jsstring \<Rightarrow> jsstring \<Rightarrow> int" where
  "indexOf_from k [] search = (if search = [] then k else - 1)"
| "indexOf_from k (c # cs) search =
     (if take (length search) (c # cs) = search then k
      else indexOf_from (k + 1) cs search)"

definition indexOf :: "jsstring \<Rightarrow> jsstring \<Rightarrow> int" where
  "indexOf s search = indexOf_from 0 s search"

text \<open>\<open>email.split('@')[0]\<close>: everything before the first \<open>@\<close> (code unit 64).\<close>

definition split_at_0 :: "jsstring \<Rightarrow> jsstring" where
  "split_at_0 email = takeWhile (\<lambda>c. c \<noteq> 64) email"

text \<open>The part of \<open>@overleaf/settings\<close> that the authentication manager reads. A value
  that may be missing from the configuration is an option.\<close>

record length_options =
  length_min :: "int option"
  length_max :: "int option"

record chars_options =
  digits :: "jsstring option"
  letters :: "jsstring option"
  letters_up :: "jsstring option"
  symbols :: "jsstring option"

record password_strength_options =
  allowAnyChars :: "bool option"
  length_options :: "length_options option"
  chars :: "chars_options option"

record security_settings =
  bcryptRounds :: "int option"
  bcryptMinorVersion :: "jsstring option"
  disableBcryptRoundsUpgrades :: bool

record settings =
  passwordStrengthOptions :: "password_strength_options option"
  security :: security_settings

text \<open>JavaScript's \<open>x || d\<close> on a number (0 and undefined are falsy) and on a string
  (the empty string and undefined are falsy).\<close>

definition num_or :: "int option \<Rightarrow> int \<Rightarrow> int" where
  "num_or x d = (case x of None \<Rightarrow> d | Some n \<Rightarrow> if n = 0 then d else n)"

definition str_or :: "jsstring option \<Rightarrow> jsstring \<Rightarrow> jsstring" where
  "str_or x d = (case x of None \<Rightarrow> d | Some s \<Rightarrow> if s = [] then d else s)"

definition truthy :: "jsstring option \<Rightarrow> bool" where
  "truthy x = (case x of None \<Rightarrow> False | Some s \<Rightarrow> s \<noteq> [])"

definition Settings_default :: settings where
  "Settings_default =
     \<lparr>passwordStrengthOptions = None,
      security = \<lparr>bcryptRounds = None, bcryptMinorVersion = None,
                  disableBcryptRoundsUpgrades = False\<rparr>\<rparr>"

section \<open>Errors\<close>

datatype code = not_set | too_short | too_long | invalid_character | contains_email

datatype error =
    InvalidEmailError string
  | InvalidPasswordError string code
  | ParallelLoginError
  | TypeError
  | Error string

text \<open>\<open>error.info.code\<close> of an error object.\<close>

fun info_code :: "error \<Rightarrow> code option" where
  "info_code (InvalidPasswordError message c) = Some c"
| "info_code _ = None"

section \<open>Password policy\<close>

text \<open>\<open>_passwordCharactersAreValid\<close>: the four class strings, each with its default,
  and the loop over the characters of the password.\<close>

definition chars_digits :: "settings \<Rightarrow> jsstring" where
  "chars_digits S =
     str_or (case passwordStrengthOptions S of None \<Rightarrow> None
             | Some pso \<Rightarrow> (case chars pso of None \<Rightarrow> None | Some cs \<Rightarrow> digits cs))
       (js ''1234567890'')"

definition chars_letters :: "settings \<Rightarrow> jsstring" where
  "chars_letters S =
     str_or (case passwordStrengthOptions S of None \<Rightarrow> None
             | Some pso \<Rightarrow> (case chars pso of None \<Rightarrow> None | Some cs \<Rightarrow> letters cs))
       (js ''abcdefghijklmnopqrstuvwxyz'')"

definition chars_lettersUp :: "settings \<Rightarrow> jsstring" where
  "chars_lettersUp S =
     str_or (case passwordStrengthOptions S of None \<Rightarrow> None
             | Some pso \<Rightarrow> (case chars pso of None \<Rightarrow> None | Some cs \<Rightarrow> letters_up cs))
       (js ''ABCDEFGHIJKLMNOPQRSTUVWXYZ'')"

text \<open>The default symbols end with the pound sign (code unit 163), the euro sign
  (code unit 8364), the full stop and the comma.\<close>

definition chars_symbols :: "settings \<Rightarrow> jsstring" where
  "chars_symbols S =
     str_or (case passwordStrengthOptions S of None \<Rightarrow> None
             | Some pso \<Rightarrow> (case chars pso of None \<Rightarrow> None | Some cs \<Rightarrow> symbols cs))
       (js ''@#$%^&*()-_=+[]{};:<>/?!'' @ [163, 8364] @ js ''.,'')"

fun characters_loop :: "settings \<Rightarrow> jsstring \<Rightarrow> bool" where
  "characters_loop S [] = True"
| "characters_loop S (c # cs) =
     (if indexOf (chars_digits S) [c] = - 1 \<and>
         indexOf (chars_letters S) [c] = - 1 \<and>
         indexOf (chars_lettersUp S) [c] = - 1 \<and>
         indexOf (chars_symbols S) [c] = - 1
      then False
      else characters_loop S cs)"

definition passwordCharactersAreValid :: "settings \<Rightarrow> jsstring \<Rightarrow> bool" where
  "passwordCharactersAreValid S password = characters_loop S password"

text \<open>The policy values \<open>validatePassword\<close> works out before its checks:
  \<open>allowAnyChars\<close> is true only when the setting is exactly \<open>true\<close>, \<open>min\<close> defaults
  to 6, \<open>max\<close> defaults to 72 and is capped at 72.\<close>

definition policy_allowAnyChars :: "settings \<Rightarrow> bool" where
  "policy_allowAnyChars S =
     (case passwordStrengthOptions S of None \<Rightarrow> False
      | Some pso \<Rightarrow> allowAnyChars pso = Some True)"

definition policy_min :: "settings \<Rightarrow> int" where
  "policy_min S =
     num_or (case passwordStrengthOptions S of None \<Rightarrow> None
             | Some pso \<Rightarrow> (case length_options pso of None \<Rightarrow> None
                             | Some l \<Rightarrow> length_min l)) 6"

definition policy_max :: "settings \<Rightarrow> int" where
  "policy_max S =
     (let mx = num_or (case passwordStrengthOptions S of None \<Rightarrow> None
                       | Some pso \<Rightarrow> (case length_options pso of None \<Rightarrow> None
                                       | Some l \<Rightarrow> length_max l)) 72
      in if mx > 72 then 72 else mx)"

text \<open>\<open>validatePassword(password, email)\<close>: \<open>None\<close> is JavaScript's \<open>null\<close> result, a
  password of \<open>None\<close> is \<open>null\<close> or \<open>undefined\<close>, an email of \<open>None\<close> is any value that
  is not a string.\<close>

definition validatePassword :: "settings \<Rightarrow> jsstring option \<Rightarrow> jsstring option \<Rightarrow> error option" where
  "validatePassword S password email =
     (case password of
        None \<Rightarrow> Some (InvalidPasswordError ''password not set'' not_set)
      | Some pw \<Rightarrow>
          if int (length pw) < policy_min S
          then Some (InvalidPasswordError ''password is too short'' too_short)
          else if int (length pw) > policy_max S
          then Some (InvalidPasswordError ''password is too long'' too_long)
          else if \<not> policy_allowAnyChars S \<and> \<not> passwordCharactersAreValid S pw
          then Some (InvalidPasswordError ''password contains an invalid character''
                       invalid_character)
          else (case email of
                  None \<Rightarrow> None
                | Some em \<Rightarrow>
                    if em \<noteq> [] then
                      (let startOfEmail = split_at_0 em
                       in if indexOf pw em \<noteq> - 1 \<or> indexOf pw startOfEmail \<noteq> - 1
                          then Some (InvalidPasswordError
                                       ''password contains part of email address''
                                       contains_email)
                          else None)
                    else None))"

text \<open>The condition of each check on its own: what it means for an input to violate
  one rule, whatever the other rules say. The four checks after the first read
  \<open>password.length\<close> or search the password, so they are conditions on a password
  that is present.\<close>

fun violates :: "settings \<Rightarrow> jsstring option \<Rightarrow> jsstring option \<Rightarrow> code \<Rightarrow> bool" where
  "violates S password email not_set = (password = None)"
| "violates S password email too_short =
     (case password of None \<Rightarrow> False | Some pw \<Rightarrow> int (length pw) < policy_min S)"
| "violates S password email too_long =
     (case password of None \<Rightarrow> False | Some pw \<Rightarrow> int (length pw) > policy_max S)"
| "violates S password email invalid_character =
     (case password of None \<Rightarrow> False
      | Some pw \<Rightarrow> \<not> policy_allowAnyChars S \<and> \<not> passwordCharactersAreValid S pw)"
| "violates S password email contains_email =
     (case password of None \<Rightarrow> False
      | Some pw \<Rightarrow>
          (case email of None \<Rightarrow> False
           | Some em \<Rightarrow> em \<noteq> [] \<and>
               (indexOf pw em \<noteq> - 1 \<or> indexOf pw (split_at_0 em) \<noteq> - 1)))"

definition check_order :: "code list" where
  "check_order = [not_set, too_short, too_long, invalid_character, contains_email]"

section \<open>Accounts, the users collection and the world\<close>

text \<open>
  A user document. \<open>user_id\<close> is the field \<open>_id\<close>, \<open>user_email\<close> the field \<open>email\<close> and
  \<open>user_password\<close> the legacy plaintext field \<open>password\<close> (the names \<open>email\<close> and
  \<open>password\<close> stay free for the parameters of the functions). A field that a
  JavaScript object may lack is an option. The counter \<open>loginEpoch\<close> is an integer, as
  the data model of the specification has it.
\<close>

type_synonym objectid = nat

record email_entry =
  address :: jsstring
  confirmedAt :: "int option"

record user =
  user_id :: "objectid option"
  user_email :: "jsstring option"
  first_name :: "jsstring option"
  last_name :: "jsstring option"
  hashedPassword :: "jsstring option"
  user_password :: "jsstring option"
  loginEpoch :: int
  lastFailedLogin :: "int option"
  emails :: "email_entry list"
  thirdPartyIdentifiers :: "jsstring list"
  admin :: "bool option"

text \<open>The claims of the identity provider, and the details handed to
  \<open>registerNewUser\<close>.\<close>

record claims =
  sub :: jsstring
  claims_email :: "jsstring option"
  given_name :: "jsstring option"
  family_name :: "jsstring option"

record registration =
  reg_email :: "jsstring option"
  reg_first_name :: "jsstring option"
  reg_last_name :: "jsstring option"
  reg_password :: jsstring

text \<open>
  A MongoDB filter with equality criteria: a criterion that is \<open>None\<close> is not part of
  the filter. On the array field \<open>thirdPartyIdentifiers\<close> a criterion matches a document
  whose array contains the value.
\<close>

record query =
  q_id :: "objectid option"
  q_email :: "jsstring option"
  q_loginEpoch :: "int option"
  q_thirdPartyIdentifiers :: "jsstring option"

definition matches :: "query \<Rightarrow> user \<Rightarrow> bool" where
  "matches q u =
     ((case q_id q of None \<Rightarrow> True | Some i \<Rightarrow> user_id u = Some i) \<and>
      (case q_email q of None \<Rightarrow> True | Some e \<Rightarrow> user_email u = Some e) \<and>
      (case q_loginEpoch q of None \<Rightarrow> True | Some n \<Rightarrow> loginEpoch u = n) \<and>
      (case q_thirdPartyIdentifiers q of None \<Rightarrow> True
       | Some s \<Rightarrow> s \<in> set (thirdPartyIdentifiers u)))"

text \<open>An update document: \<open>$inc\<close> on \<open>loginEpoch\<close>, \<open>$set\<close> on \<open>lastFailedLogin\<close> and on
  \<open>hashedPassword\<close>, \<open>$unset\<close> on \<open>password\<close>.\<close>

record update_doc =
  inc_loginEpoch :: "int option"
  set_lastFailedLogin :: "int option"
  set_hashedPassword :: "jsstring option"
  unset_password :: bool

definition apply_update :: "update_doc \<Rightarrow> user \<Rightarrow> user" where
  "apply_update upd u =
     (let u1 = (case inc_loginEpoch upd of None \<Rightarrow> u
                | Some n \<Rightarrow> u\<lparr>loginEpoch := loginEpoch u + n\<rparr>);
          u2 = (case set_lastFailedLogin upd of None \<Rightarrow> u1
                | Some t \<Rightarrow> u1\<lparr>lastFailedLogin := Some t\<rparr>);
          u3 = (case set_hashedPassword upd of None \<Rightarrow> u2
                | Some h \<Rightarrow> u2\<lparr>hashedPassword := Some h\<rparr>)
      in if unset_password upd then u3\<lparr>user_password := None\<rparr> else u3)"

text \<open>
  Modelled from the spec: the store's \<open>conditionalUpdate\<close> and \<open>unconditionedUpdate\<close>
  (MongoDB's \<open>updateOne\<close>, reached through the model \<open>User\<close> and through \<open>db.users\<close>,
  neither of which is among the sources). The first document that the filter matches
  is updated; the count returned is the number of documents modified, 0 or 1.
\<close>

fun update_first :: "query \<Rightarrow> update_doc \<Rightarrow> user list \<Rightarrow> int \<times> user list" where
  "update_first q upd [] = (0, [])"
| "update_first q upd (u # us) =
     (if matches q u
      then (if apply_update upd u = u then 0 else 1, apply_update upd u # us)
      else (case update_first q upd us of (n, us') \<Rightarrow> (n, u # us')))"

text \<open>
  Modelled from the spec: \<open>save\<close> of a document (Mongoose, not among the sources). It
  writes the paths assigned since the document was read into the stored document with
  the same \<open>_id\<close>; a document that is not stored yet is inserted.
\<close>

datatype path = P_email | P_first_name | P_last_name | P_admin | P_emails
  | P_thirdPartyIdentifiers

fun copy_path :: "user \<Rightarrow> path \<Rightarrow> user \<Rightarrow> user" where
  "copy_path doc P_email stored = stored\<lparr>user_email := user_email doc\<rparr>"
| "copy_path doc P_first_name stored = stored\<lparr>first_name := first_name doc\<rparr>"
| "copy_path doc P_last_name stored = stored\<lparr>last_name := last_name doc\<rparr>"
| "copy_path doc P_admin stored = stored\<lparr>admin := admin doc\<rparr>"
| "copy_path doc P_emails stored = stored\<lparr>emails := emails doc\<rparr>"
| "copy_path doc P_thirdPartyIdentifiers stored =
     stored\<lparr>thirdPartyIdentifiers := thirdPartyIdentifiers doc\<rparr>"

fun save_into :: "user \<Rightarrow> path list \<Rightarrow> user list \<Rightarrow> user list" where
  "save_into doc paths [] = [doc]"
| "save_into doc paths (u # us) =
     (if user_id u = user_id doc then fold (copy_path doc) paths u # us
      else u # save_into doc paths us)"

text \<open>
  What a call leaves behind for an observer: the calls it made to the store and to its
  collaborators, the results handed to a callback that records them, and exceptions
  thrown inside a callback (which reach no callback at all).
\<close>

datatype call =
    FindOne query
  | UpdateOne query update_doc
  | Save user
  | RegisterNewUser registration
  | CheckPasswordForReuseInBackground "jsstring option" bool

datatype 'r event = Called call | Returned 'r | Thrown error

text \<open>
  The world: the users collection, the failures the store is going to answer its next
  calls with (\<open>None\<close>, or no entry left: the call goes through), the clock, and the
  trace.
\<close>

record 'r world =
  users :: "user list"
  faults :: "error option list"
  clock :: int
  trace :: "'r event list"

definition next_fault :: "'r world \<Rightarrow> error option" where
  "next_fault w = (case faults w of [] \<Rightarrow> None | f # fs \<Rightarrow> f)"

definition issue :: "call \<Rightarrow> 'r world \<Rightarrow> 'r world" where
  "issue c w = w\<lparr>faults := tl (faults w), trace := trace w @ [Called c]\<rparr>"

definition thrown :: "error \<Rightarrow> 'r world \<Rightarrow> 'r world" where
  "thrown e w = w\<lparr>trace := trace w @ [Thrown e]\<rparr>"

definition report :: "'r \<Rightarrow> 'r world \<Rightarrow> 'r world" where
  "report r w = w\<lparr>trace := trace w @ [Returned r]\<rparr>"

text \<open>The results recorded in a trace, and the calls recorded in it.\<close>

definition results :: "'r event list \<Rightarrow> 'r list" where
  "results tr = concat (map (\<lambda>e. case e of Returned r \<Rightarrow> [r] | _ \<Rightarrow> []) tr)"

definition calls :: "'r event list \<Rightarrow> call list" where
  "calls tr = concat (map (\<lambda>e. case e of Called c \<Rightarrow> [c] | _ \<Rightarrow> []) tr)"

text \<open>A conditioned update is an \<open>updateOne\<close> whose filter names the expected
  \<open>loginEpoch\<close>; a write is any call but a read and the breach check.\<close>

fun is_conditioned :: "call \<Rightarrow> bool" where
  "is_conditioned (UpdateOne q upd) = (q_loginEpoch q \<noteq> None)"
| "is_conditioned _ = False"

fun is_write :: "call \<Rightarrow> bool" where
  "is_write (FindOne q) = False"
| "is_write (CheckPasswordForReuseInBackground password failed) = False"
| "is_write _ = True"

text \<open>The breach check comes after the result: in a list of events, every
  breach check has a recorded result before it (\<open>seen\<close> says whether one came even
  earlier).\<close>

fun checks_after_result :: "bool \<Rightarrow> 'r event list \<Rightarrow> bool" where
  "checks_after_result seen [] = True"
| "checks_after_result seen (Returned r # es) = checks_after_result True es"
| "checks_after_result seen (Thrown e # es) = checks_after_result seen es"
| "checks_after_result seen (Called c # es) =
     (case c of
        CheckPasswordForReuseInBackground password failed \<Rightarrow>
          seen \<and> checks_after_result seen es
      | _ \<Rightarrow> checks_after_result seen es)"

text \<open>No account's \<open>loginEpoch\<close> went down: every document is still in its place, with
  its \<open>_id\<close>, and its counter is at least what it was.\<close>

definition epochs_le :: "user list \<Rightarrow> user list \<Rightarrow> bool" where
  "epochs_le us us' =
     (length us \<le> length us' \<and>
      (\<forall>i < length us. user_id (us' ! i) = user_id (us ! i) \<and>
                       loginEpoch (us ! i) \<le> loginEpoch (us' ! i)))"

text \<open>
  A Node callback \<open>callback(err, value)\<close> is a function from the error or the value to
  a change of the world. The store's calls in this style:
\<close>

definition User_findOne ::
  "query \<Rightarrow> (error + user option \<Rightarrow> 'r world \<Rightarrow> 'r world) \<Rightarrow> 'r world \<Rightarrow> 'r world" where
  "User_findOne q callback w =
     (case next_fault w of
        Some e \<Rightarrow> callback (Inl e) (issue (FindOne q) w)
      | None \<Rightarrow> callback (Inr (List.find (matches q) (users w))) (issue (FindOne q) w))"

definition updateOne ::
  "query \<Rightarrow> update_doc \<Rightarrow> (error + int \<Rightarrow> 'r world \<Rightarrow> 'r world) \<Rightarrow> 'r world \<Rightarrow> 'r world" where
  "updateOne q upd callback w =
     (case next_fault w of
        Some e \<Rightarrow> callback (Inl e) (issue (UpdateOne q upd) w)
      | None \<Rightarrow>
          (case update_first q upd (users w) of
             (n, us) \<Rightarrow> callback (Inr n) ((issue (UpdateOne q upd) w)\<lparr>users := us\<rparr>)))"

definition Document_save ::
  "user \<Rightarrow> path list \<Rightarrow> (error + user \<Rightarrow> 'r world \<Rightarrow> 'r world) \<Rightarrow> 'r world \<Rightarrow> 'r world" where
  "Document_save doc paths callback w =
     (case next_fault w of
        Some e \<Rightarrow> callback (Inl e) (issue (Save doc) w)
      | None \<Rightarrow>
          callback (Inr doc)
            ((issue (Save doc) w)\<lparr>users := save_into doc paths (users w)\<rparr>))"

text \<open>
  What the authentication manager is given from outside: the settings, the four
  functions of \<open>bcrypt\<close> it calls, the registration collaborator
  (\<open>UserRegistrationHandler.registerNewUser\<close>, which answers with an error or the new
  user and may change the collection), the 32 random bytes in hexadecimal, and whether
  the breach check of a password goes wrong inside.
\<close>

record env =
  Settings :: settings
  bcrypt_compare :: "jsstring option \<Rightarrow> jsstring \<Rightarrow> error + bool"
  bcrypt_getRounds :: "jsstring \<Rightarrow> error + int"
  bcrypt_genSalt :: "int \<Rightarrow> jsstring \<Rightarrow> error + jsstring"
  bcrypt_hash :: "jsstring option \<Rightarrow> jsstring \<Rightarrow> error + jsstring"
  registerNewUser :: "registration \<Rightarrow> user list \<Rightarrow> (error + user) \<times> user list"
  randomBytes_hex :: jsstring
  breach_check_fails :: "jsstring option \<Rightarrow> bool"

definition BCRYPT_ROUNDS :: "env \<Rightarrow> int" where
  "BCRYPT_ROUNDS E = num_or (bcryptRounds (security (Settings E))) 12"

definition BCRYPT_MINOR_VERSION :: "env \<Rightarrow> jsstring" where
  "BCRYPT_MINOR_VERSION E = str_or (bcryptMinorVersion (security (Settings E))) (js ''a'')"

text \<open>\<open>HaveIBeenPwned.checkPasswordForReuseInBackground\<close>: returns nothing; whatever
  happens inside stays inside.\<close>

definition checkPasswordForReuseInBackground :: "env \<Rightarrow> jsstring option \<Rightarrow> 'r world \<Rightarrow> 'r world" where
  "checkPasswordForReuseInBackground E password w =
     w\<lparr>trace := trace w @
          [Called (CheckPasswordForReuseInBackground password (breach_check_fails E password))]\<rparr>"

section \<open>The authentication manager\<close>

definition checkWriteResult ::
  "int \<Rightarrow> (error + bool option \<Rightarrow> 'r world \<Rightarrow> 'r world) \<Rightarrow> 'r world \<Rightarrow> 'r world" where
  "checkWriteResult result callback =
     (if result = 1 then callback (Inr (Some True)) else callback (Inr (Some False)))"

definition hashPassword ::
  "env \<Rightarrow> jsstring option \<Rightarrow> (error + jsstring \<Rightarrow> 'r world \<Rightarrow> 'r world) \<Rightarrow> 'r world \<Rightarrow> 'r world" where
  "hashPassword E password callback =
     (case bcrypt_genSalt E (BCRYPT_ROUNDS E) (BCRYPT_MINOR_VERSION E) of
        Inl error \<Rightarrow> callback (Inl error)
      | Inr salt \<Rightarrow> callback (bcrypt_hash E password salt))"

definition by_id :: "user \<Rightarrow> query" where
  "by_id user = \<lparr>q_id = user_id user, q_email = None, q_loginEpoch = None,
                 q_thirdPartyIdentifiers = None\<rparr>"

definition set_password_update :: "jsstring \<Rightarrow> update_doc" where
  "set_password_update hash =
     \<lparr>inc_loginEpoch = None, set_lastFailedLogin = None,
      set_hashedPassword = Some hash, unset_password = True\<rparr>"

text \<open>\<open>setUserPasswordInV2\<close>, with the callback of \<open>db.users.updateOne\<close> and the callback
  of \<open>hashPassword\<close> first. The result \<open>Inr (Some b)\<close> is \<open>callback(null, b)\<close>.\<close>

definition setUserPassword_updated ::
  "env \<Rightarrow> jsstring option \<Rightarrow> (error + bool option \<Rightarrow> 'r world \<Rightarrow> 'r world) \<Rightarrow>
   error + int \<Rightarrow> 'r world \<Rightarrow> 'r world" where
  "setUserPassword_updated E password callback r =
     (case r of
        Inl updateError \<Rightarrow> callback (Inl updateError)
      | Inr result \<Rightarrow>
          (\<lambda>w. checkPasswordForReuseInBackground E password
                 (checkWriteResult result callback w)))"

definition setUserPassword_hashed ::
  "env \<Rightarrow> user \<Rightarrow> jsstring option \<Rightarrow> (error + bool option \<Rightarrow> 'r world \<Rightarrow> 'r world) \<Rightarrow>
   error + jsstring \<Rightarrow> 'r world \<Rightarrow> 'r world" where
  "setUserPassword_hashed E user password callback r =
     (case r of
        Inl error \<Rightarrow> callback (Inl error)
      | Inr hash \<Rightarrow>
          updateOne (by_id user) (set_password_update hash)
            (setUserPassword_updated E password callback))"

definition setUserPasswordInV2 ::
  "env \<Rightarrow> user option \<Rightarrow> jsstring option \<Rightarrow>
   (error + bool option \<Rightarrow> 'r world \<Rightarrow> 'r world) \<Rightarrow> 'r world \<Rightarrow> 'r world" where
  "setUserPasswordInV2 E user password callback =
     (case user of
        None \<Rightarrow> callback (Inl (Error ''invalid user object''))
      | Some u \<Rightarrow>
          if \<not> truthy (user_email u) \<or> user_id u = None
          then callback (Inl (Error ''invalid user object''))
          else
            (case validatePassword (Settings E) password (user_email u) of
               Some validationError \<Rightarrow> callback (Inl validationError)
             | None \<Rightarrow>
                 hashPassword E password (setUserPassword_hashed E u password callback)))"

definition setUserPassword ::
  "env \<Rightarrow> user option \<Rightarrow> jsstring option \<Rightarrow>
   (error + bool option \<Rightarrow> 'r world \<Rightarrow> 'r world) \<Rightarrow> 'r world \<Rightarrow> 'r world" where
  "setUserPassword E user password callback = setUserPasswordInV2 E user password callback"

definition checkRounds ::
  "env \<Rightarrow> user \<Rightarrow> jsstring \<Rightarrow> jsstring option \<Rightarrow>
   (error + bool option \<Rightarrow> 'r world \<Rightarrow> 'r world) \<Rightarrow> 'r world \<Rightarrow> 'r world" where
  "checkRounds E user hashed password callback =
     (if disableBcryptRoundsUpgrades (security (Settings E)) then callback (Inr None)
      else
        (case bcrypt_getRounds E hashed of
           Inl e \<Rightarrow> thrown e
         | Inr currentRounds \<Rightarrow>
             if currentRounds < BCRYPT_ROUNDS E
             then setUserPassword E (Some user) password callback
             else callback (Inr None)))"

text \<open>
  \<open>authenticate\<close>, callback by callback from the innermost: the callback of
  \<open>checkRounds\<close>, of \<open>User.updateOne\<close>, of \<open>bcrypt.compare\<close> and of \<open>User.findOne\<close>. The
  result \<open>Inr None\<close> is \<open>callback(null, null)\<close>, \<open>Inr (Some user)\<close> is
  \<open>callback(null, user)\<close>.
\<close>

definition authenticate_checked ::
  "env \<Rightarrow> user \<Rightarrow> jsstring option \<Rightarrow> (error + user option \<Rightarrow> 'r world \<Rightarrow> 'r world) \<Rightarrow>
   error + bool option \<Rightarrow> 'r world \<Rightarrow> 'r world" where
  "authenticate_checked E user password callback r =
     (case r of
        Inl err \<Rightarrow> callback (Inl err)
      | Inr _ \<Rightarrow>
          (\<lambda>w. checkPasswordForReuseInBackground E password (callback (Inr (Some user)) w)))"

definition authenticate_updated ::
  "env \<Rightarrow> user \<Rightarrow> jsstring \<Rightarrow> jsstring option \<Rightarrow> bool \<Rightarrow>
   (error + user option \<Rightarrow> 'r world \<Rightarrow> 'r world) \<Rightarrow> error + int \<Rightarrow> 'r world \<Rightarrow> 'r world" where
  "authenticate_updated E user hashed password match callback r =
     (case r of
        Inl err \<Rightarrow> callback (Inl err)
      | Inr nModified \<Rightarrow>
          if nModified \<noteq> 1 then callback (Inl ParallelLoginError)
          else if \<not> match then callback (Inr None)
          else checkRounds E user hashed password
                 (authenticate_checked E user password callback))"

definition epoch_query :: "user \<Rightarrow> query" where
  "epoch_query user = \<lparr>q_id = user_id user, q_email = None,
                       q_loginEpoch = Some (loginEpoch user),
                       q_thirdPartyIdentifiers = None\<rparr>"

definition login_update :: "bool \<Rightarrow> int \<Rightarrow> update_doc" where
  "login_update match now =
     \<lparr>inc_loginEpoch = Some 1,
      set_lastFailedLogin = (if \<not> match then Some now else None),
      set_hashedPassword = None, unset_password = False\<rparr>"

definition authenticate_compared ::
  "env \<Rightarrow> user \<Rightarrow> jsstring \<Rightarrow> jsstring option \<Rightarrow>
   (error + user option \<Rightarrow> 'r world \<Rightarrow> 'r world) \<Rightarrow> error + bool \<Rightarrow> 'r world \<Rightarrow> 'r world" where
  "authenticate_compared E user hashed password callback r w =
     (case r of
        Inl error \<Rightarrow> callback (Inl error) w
      | Inr match \<Rightarrow>
          updateOne (epoch_query user) (login_update match (clock w))
            (authenticate_updated E user hashed password match callback) w)"

definition authenticate_found ::
  "env \<Rightarrow> jsstring option \<Rightarrow> (error + user option \<Rightarrow> 'r world \<Rightarrow> 'r world) \<Rightarrow>
   error + user option \<Rightarrow> 'r world \<Rightarrow> 'r world" where
  "authenticate_found E password callback r =
     (case r of
        Inl error \<Rightarrow> callback (Inl error)
      | Inr None \<Rightarrow> callback (Inr None)
      | Inr (Some user) \<Rightarrow>
          (case hashedPassword user of
             None \<Rightarrow> callback (Inr None)
           | Some hashed \<Rightarrow>
               if hashed = [] then callback (Inr None)
               else authenticate_compared E user hashed password callback
                      (bcrypt_compare E password hashed)))"

definition authenticate ::
  "env \<Rightarrow> query \<Rightarrow> jsstring option \<Rightarrow> (error + user option \<Rightarrow> 'r world \<Rightarrow> 'r world) \<Rightarrow>
   'r world \<Rightarrow> 'r world" where
  "authenticate E query password callback =
     User_findOne query (authenticate_found E password callback)"

text \<open>\<open>doPassportLogin\<close> and \<open>createIfNotExistAndLogin\<close>. Reading \<open>user.emails[0]\<close> of a
  user without an email entry throws a \<open>TypeError\<close>.\<close>

definition UserRegistrationHandler_registerNewUser ::
  "env \<Rightarrow> registration \<Rightarrow> (error + user \<Rightarrow> 'r world \<Rightarrow> 'r world) \<Rightarrow> 'r world \<Rightarrow> 'r world" where
  "UserRegistrationHandler_registerNewUser E details callback w =
     (case registerNewUser E details (users w) of
        (r, us) \<Rightarrow>
          callback r (w\<lparr>users := us, trace := trace w @ [Called (RegisterNewUser details)]\<rparr>))"

definition save_callback ::
  "(error + user \<Rightarrow> 'r world \<Rightarrow> 'r world) \<Rightarrow> error + user \<Rightarrow> 'r world \<Rightarrow> 'r world" where
  "save_callback callback r =
     (case r of Inl err \<Rightarrow> callback (Inl err) | Inr result \<Rightarrow> callback (Inr result))"

definition registered ::
  "claims \<Rightarrow> (error + user \<Rightarrow> 'r world \<Rightarrow> 'r world) \<Rightarrow> error + user \<Rightarrow> 'r world \<Rightarrow> 'r world" where
  "registered claims callback r w =
     (case r of
        Inl error \<Rightarrow> callback (Inl error) w
      | Inr user \<Rightarrow>
          (case emails user of
             [] \<Rightarrow> thrown TypeError w
           | e # es \<Rightarrow>
               Document_save
                 (user\<lparr>admin := Some False,
                       emails := e\<lparr>confirmedAt := Some (clock w)\<rparr> # es,
                       thirdPartyIdentifiers := thirdPartyIdentifiers user @ [sub claims]\<rparr>)
                 [P_admin, P_emails, P_thirdPartyIdentifiers]
                 (save_callback callback) w))"

text \<open>The details \<open>createIfNotExistAndLogin\<close> registers a new user with: the profile
  of the claims and the random placeholder password.\<close>

definition registration_details :: "env \<Rightarrow> claims \<Rightarrow> registration" where
  "registration_details E claims =
     \<lparr>reg_email = claims_email claims, reg_first_name = given_name claims,
      reg_last_name = family_name claims, reg_password = randomBytes_hex E\<rparr>"

definition createIfNotExistAndLogin ::
  "env \<Rightarrow> user option \<Rightarrow> claims \<Rightarrow> query \<Rightarrow> (error + user \<Rightarrow> 'r world \<Rightarrow> 'r world) \<Rightarrow>
   'r world \<Rightarrow> 'r world" where
  "createIfNotExistAndLogin E user claims query callback =
     (let create =
            UserRegistrationHandler_registerNewUser E (registration_details E claims)
              (registered claims callback)
      in case user of
           None \<Rightarrow> create
         | Some u \<Rightarrow>
             if \<not> truthy (hashedPassword u) then create
             else
               Document_save
                 (u\<lparr>user_email := claims_email claims, first_name := given_name claims,
                    last_name := family_name claims\<rparr>)
                 [P_email, P_first_name, P_last_name]
                 (save_callback callback))"

definition sub_query :: "claims \<Rightarrow> query" where
  "sub_query claims = \<lparr>q_id = None, q_email = None, q_loginEpoch = None,
                        q_thirdPartyIdentifiers = Some (sub claims)\<rparr>"

definition doPassportLogin ::
  "env \<Rightarrow> claims \<Rightarrow> (error + user \<Rightarrow> 'r world \<Rightarrow> 'r world) \<Rightarrow> 'r world \<Rightarrow> 'r world" where
  "doPassportLogin E claims callback =
     User_findOne (sub_query claims)
       (\<lambda>r. case r of
          Inl error \<Rightarrow> callback (Inl error)
        | Inr user \<Rightarrow> createIfNotExistAndLogin E user claims (sub_query claims) callback)"

text \<open>\<open>hashPassword\<close> ends with this hash: \<open>genSalt\<close> gave a salt for the target
  rounds and \<open>hash\<close> gave the hash of the password with it.\<close>

definition hashes_to :: "env \<Rightarrow> jsstring option \<Rightarrow> jsstring \<Rightarrow> bool" where
  "hashes_to E password hash =
     (\<exists>salt. bcrypt_genSalt E (BCRYPT_ROUNDS E) (BCRYPT_MINOR_VERSION E) = Inr salt \<and>
             bcrypt_hash E password salt = Inr hash)"

text \<open>\<open>checkRounds\<close> has nothing to do: upgrades are switched off, or the rounds of
  the stored hash are not below the target.\<close>

definition no_upgrade_due :: "env \<Rightarrow> jsstring \<Rightarrow> bool" where
  "no_upgrade_due E hashed =
     (disableBcryptRoundsUpgrades (security (Settings E)) \<or>
      (\<exists>currentRounds. bcrypt_getRounds E hashed = Inr currentRounds \<and>
         \<not> currentRounds < BCRYPT_ROUNDS E))"

text \<open>What the events after the conditioned update must look like: no further
  conditioned update, every breach check after the result, at most one result, and a
  breach check of the password whenever the result is a user.\<close>

definition tail_ok :: "env \<Rightarrow> jsstring option \<Rightarrow> (error + user option) event list \<Rightarrow> bool" where
  "tail_ok E password es =
     (filter is_conditioned (calls es) = [] \<and>
      checks_after_result False es \<and>
      length (results es) \<le> 1 \<and>
      (\<forall>u. Inr (Some u) \<in> set (results es) \<longrightarrow>
         Called (CheckPasswordForReuseInBackground password (breach_check_fails E password))
           \<in> set es))"

text \<open>What \<open>bcrypt\<close> promises about a hash it makes for the target rounds: the hash
  carries these rounds, and the password it was made from verifies against it.\<close>

definition bcrypt_sound :: "env \<Rightarrow> jsstring option \<Rightarrow> bool" where
  "bcrypt_sound E password =
     (\<forall>hash. hashes_to E password hash \<longrightarrow>
        bcrypt_getRounds E hash = Inr (BCRYPT_ROUNDS E) \<and>
        bcrypt_compare E password hash = Inr True)"

text \<open>What a call must leave in the trace for the breach check to come after its
  result: every breach check has a result before it, there is at most one result, and
  whenever the result is a value that counts as done the breach check of the password
  is there.\<close>

definition check_follows ::
  "('a \<Rightarrow> bool) \<Rightarrow> env \<Rightarrow> jsstring option \<Rightarrow> (error + 'a) event list \<Rightarrow> bool" where
  "check_follows done E password es =
     (checks_after_result False es \<and>
      length (results es) \<le> 1 \<and>
      (\<forall>v. Inr v \<in> set (results es) \<and> done v \<longrightarrow>
         Called (CheckPasswordForReuseInBackground password (breach_check_fails E password))
           \<in> set es))"

text \<open>Two worlds agree when they differ at most in their traces, and the results
  recorded in the traces are the same.\<close>

definition agree :: "'r world \<Rightarrow> 'r world \<Rightarrow> bool" where
  "agree w w' =
     (users w = users w' \<and> faults w = faults w' \<and> clock w = clock w' \<and>
      results (trace w) = results (trace w'))"

section \<open>An environment and a collection to run the functions on\<close>

text \<open>
  Modelled from the spec: the registration collaborator
  (\<open>UserRegistrationHandler.registerNewUser\<close>, which is not among the sources).
  \<open>registerNewUser(profileFields) -> Account | Error\<close>, and an account is created by the
  registration collaborator: it stores a new account with the profile fields, the hash
  of the password it was given and one unconfirmed email entry, under an \<open>_id\<close> above
  every \<open>_id\<close> in the collection, and answers with it.
\<close>

definition fresh_id :: "user list \<Rightarrow> objectid" where
  "fresh_id us =
     Suc (fold (\<lambda>u m. case user_id u of None \<Rightarrow> m | Some i \<Rightarrow> max i m) us 0)"

definition example_registerNewUser :: "registration \<Rightarrow> user list \<Rightarrow> (error + user) \<times> user list" where
  "example_registerNewUser details us =
     (let user = \<lparr>user_id = Some (fresh_id us), user_email = reg_email details,
                   first_name = reg_first_name details, last_name = reg_last_name details,
                   hashedPassword = Some (12 # reg_password details), user_password = None,
                   loginEpoch = 0, lastFailedLogin = None,
                   emails = [\<lparr>address = (case reg_email details of None \<Rightarrow> [] | Some e \<Rightarrow> e),
                              confirmedAt = None\<rparr>],
                   thirdPartyIdentifiers = [], admin = None\<rparr>
      in (Inr user, us @ [user]))"

text \<open>A stand-in for \<open>bcrypt\<close>: the hash of a password is the salt followed by the
  password, and the salt is the single code unit that carries the number of rounds.\<close>

definition example_env :: env where
  "example_env =
     \<lparr>Settings = Settings_default,
      bcrypt_compare = (\<lambda>password hashed.
         case password of None \<Rightarrow> Inl (Error ''data and hash arguments required'')
         | Some pw \<Rightarrow> Inr (tl hashed = pw)),
      bcrypt_getRounds = (\<lambda>hashed.
         case hashed of [] \<Rightarrow> Inl (Error ''invalid hash provided'') | c # cs \<Rightarrow> Inr (uint c)),
      bcrypt_genSalt = (\<lambda>rounds minor. Inr [word_of_int rounds]),
      bcrypt_hash = (\<lambda>password salt.
         case password of None \<Rightarrow> Inl (Error ''data and salt arguments required'')
         | Some pw \<Rightarrow> Inr (salt @ pw)),
      registerNewUser = example_registerNewUser,
      randomBytes_hex = js ''5f2b9c'',
      breach_check_fails = (\<lambda>password. False)\<rparr>"

definition example_user :: user where
  "example_user =
     \<lparr>user_id = Some 7, user_email = Some (js ''ada@example.com''),
      first_name = Some (js ''Ada''), last_name = Some (js ''Lovelace''),
      hashedPassword = Some (10 # js ''analytical-engine''),
      user_password = Some (js ''analytical-engine''),
      loginEpoch = 5, lastFailedLogin = None,
      emails = [\<lparr>address = js ''ada@example.com'', confirmedAt = None\<rparr>],
      thirdPartyIdentifiers = [], admin = None\<rparr>"

definition example_external_user :: user where
  "example_external_user =
     \<lparr>user_id = Some 8, user_email = Some (js ''bob@example.com''),
      first_name = None, last_name = None,
      hashedPassword = None, user_password = None,
      loginEpoch = 0, lastFailedLogin = None,
      emails = [\<lparr>address = js ''bob@example.com'', confirmedAt = None\<rparr>],
      thirdPartyIdentifiers = [js ''subject-8''], admin = None\<rparr>"

definition example_world :: "'r world" where
  "example_world =
     \<lparr>users = [example_user, example_external_user], faults = [], clock = 1000,
      trace = []\<rparr>"

text \<open>The claims of a subject no account is linked to yet, the user that the
  registration stores for them in the example collection, and that user once linked.\<close>

definition example_claims :: claims where
  "example_claims =
     \<lparr>sub = js ''subject-9'', claims_email = Some (js ''eve@example.com''),
      given_name = Some (js ''Eve''), family_name = None\<rparr>"

definition example_new_user :: user where
  "example_new_user =
     \<lparr>user_id = Some 9, user_email = Some (js ''eve@example.com''),
      first_name = Some (js ''Eve''), last_name = None,
      hashedPassword = Some (12 # js ''5f2b9c''), user_password = None,
      loginEpoch = 0, lastFailedLogin = None,
      emails = [\<lparr>address = js ''eve@example.com'', confirmedAt = None\<rparr>],
      thirdPartyIdentifiers = [], admin = None\<rparr>"

definition example_linked_user :: user where
  "example_linked_user =
     example_new_user
       \<lparr>emails := [\<lparr>address = js ''eve@example.com'', confirmedAt = Some 1000\<rparr>],
        thirdPartyIdentifiers := [js ''subject-9''], admin := Some False\<rparr>"





definition by_email :: "jsstring \<Rightarrow> query" where
  "by_email e = \<lparr>q_id = None, q_email = Some e, q_loginEpoch = None,
                 q_thirdPartyIdentifiers = None\<rparr>"

section \<open>The store's calls\<close>

lemma users_issue: "users (issue c w) = users w"
  by (simp add: issue_def)

lemma User_findOne_ok:
  "next_fault w = None \<Longrightarrow>
   User_findOne q callback w =
     callback (Inr (List.find (matches q) (users w))) (issue (FindOne q) w)"
  by (simp add: User_findOne_def)

lemma updateOne_ok:
  "next_fault w = None \<Longrightarrow>
   updateOne q upd callback w =
     callback (Inr (fst (update_first q upd (users w))))
       ((issue (UpdateOne q upd) w)\<lparr>users := snd (update_first q upd (users w))\<rparr>)"
  by (simp add: updateOne_def split: prod.split)

lemma updateOne_fault:
  "next_fault w = Some e \<Longrightarrow>
   updateOne q upd callback w = callback (Inl e) (issue (UpdateOne q upd) w)"
  by (simp add: updateOne_def)

lemma update_first_no_match:
  "\<forall>u \<in> set us. \<not> matches q u \<Longrightarrow> update_first q upd us = (0, us)"
  by (induction us) auto

lemma update_first_at:
  "i < length us \<Longrightarrow> matches q (us ! i) \<Longrightarrow> \<forall>j < i. \<not> matches q (us ! j) \<Longrightarrow>
   update_first q upd us =
     (if apply_update upd (us ! i) = us ! i then 0 else 1, us[i := apply_update upd (us ! i)])"
proof (induction us arbitrary: i)
  case Nil
  then show ?case by simp
next
  case (Cons u us)
  show ?case
  proof (cases i)
    case 0
    with Cons.prems show ?thesis by simp
  next
    case (Suc k)
    with Cons.prems have "\<not> matches q u" by auto
    moreover from Suc Cons.prems have "k < length us" "matches q (us ! k)"
      "\<forall>j < k. \<not> matches q (us ! j)" by auto
    ultimately show ?thesis
      using Cons.IH [of k] Suc by simp
  qed
qed

lemma update_first_cases:
  "(\<forall>u \<in> set us. \<not> matches q u) \<and> update_first q upd us = (0, us) \<or>
   (\<exists>i < length us. matches q (us ! i) \<and> (\<forall>j < i. \<not> matches q (us ! j)) \<and>
      update_first q upd us =
        (if apply_update upd (us ! i) = us ! i then 0 else 1,
         us[i := apply_update upd (us ! i)]))"
proof (induction us)
  case Nil
  then show ?case by simp
next
  case (Cons u us)
  show ?case
  proof (cases "matches q u")
    case True
    then have "0 < length (u # us) \<and> matches q ((u # us) ! 0) \<and>
      (\<forall>j < 0. \<not> matches q ((u # us) ! j)) \<and>
      update_first q upd (u # us) =
        (if apply_update upd ((u # us) ! 0) = (u # us) ! 0 then 0 else 1,
         (u # us)[0 := apply_update upd ((u # us) ! 0)])"
      by simp
    then show ?thesis by blast
  next
    case False
    from Cons.IH show ?thesis
    proof
      assume "(\<forall>u \<in> set us. \<not> matches q u) \<and> update_first q upd us = (0, us)"
      with False show ?thesis by simp
    next
      assume "\<exists>i < length us. matches q (us ! i) \<and> (\<forall>j < i. \<not> matches q (us ! j)) \<and>
        update_first q upd us =
          (if apply_update upd (us ! i) = us ! i then 0 else 1,
           us[i := apply_update upd (us ! i)])"
      then obtain i where i: "i < length us" "matches q (us ! i)"
        "\<forall>j < i. \<not> matches q (us ! j)"
        "update_first q upd us =
          (if apply_update upd (us ! i) = us ! i then 0 else 1,
           us[i := apply_update upd (us ! i)])" by blast
      have "\<forall>j < Suc i. \<not> matches q ((u # us) ! j)"
        using False i(3) by (auto simp: less_Suc_eq_0_disj)
      with i False have "Suc i < length (u # us) \<and> matches q ((u # us) ! Suc i) \<and>
        (\<forall>j < Suc i. \<not> matches q ((u # us) ! j)) \<and>
        update_first q upd (u # us) =
          (if apply_update upd ((u # us) ! Suc i) = (u # us) ! Suc i then 0 else 1,
           (u # us)[Suc i := apply_update upd ((u # us) ! Suc i)])"
        by simp
      then show ?thesis by blast
    qed
  qed
qed

lemma apply_login_update:
  "apply_update (login_update match now) u =
     u\<lparr>loginEpoch := loginEpoch u + 1,
       lastFailedLogin := (if match then lastFailedLogin u else Some now)\<rparr>"
  by (simp add: apply_update_def login_update_def Let_def)

lemma login_update_changes: "apply_update (login_update match now) u \<noteq> u"
proof
  assume "apply_update (login_update match now) u = u"
  then have "loginEpoch (apply_update (login_update match now) u) = loginEpoch u" by simp
  then show False
    by (simp add: apply_login_update)
qed

lemma apply_set_password_update:
  "apply_update (set_password_update hash) u =
     u\<lparr>hashedPassword := Some hash, user_password := None\<rparr>"
  by (simp add: apply_update_def set_password_update_def Let_def)

lemma results_append: "results (tr @ tr') = results tr @ results tr'"
  by (simp add: results_def)

lemma calls_append: "calls (tr @ tr') = calls tr @ calls tr'"
  by (simp add: calls_def)

lemma results_simps:
  "results [] = []" "results (Returned r # tr) = r # results tr"
  "results (Called c # tr) = results tr" "results (Thrown e # tr) = results tr"
  by (simp_all add: results_def)

lemma calls_simps:
  "calls [] = []" "calls (Returned r # tr) = calls tr"
  "calls (Called c # tr) = c # calls tr" "calls (Thrown e # tr) = calls tr"
  by (simp_all add: calls_def)

lemma authenticate_no_account:
  assumes "next_fault w = None"
    and "List.find (matches query) (users w) = None \<or>
         (\<exists>u. List.find (matches query) (users w) = Some u \<and> \<not> truthy (hashedPassword u))"
  shows "authenticate E query password report w =
           w\<lparr>faults := tl (faults w),
             trace := trace w @ [Called (FindOne query), Returned (Inr None)]\<rparr>"
proof -
  have step: "authenticate E query password report w =
      authenticate_found E password report (Inr (List.find (matches query) (users w)))
        (issue (FindOne query) w)"
    using assms(1) by (simp add: authenticate_def User_findOne_ok)
  have fin: "report (Inr None) (issue (FindOne query) w) =
      w\<lparr>faults := tl (faults w),
        trace := trace w @ [Called (FindOne query), Returned (Inr None)]\<rparr>"
    by (simp add: report_def issue_def)
  from assms(2) show ?thesis
  proof
    assume "List.find (matches query) (users w) = None"
    then show ?thesis
      by (simp add: step fin authenticate_found_def)
  next
    assume "\<exists>u. List.find (matches query) (users w) = Some u \<and> \<not> truthy (hashedPassword u)"
    then obtain u where u: "List.find (matches query) (users w) = Some u"
      "\<not> truthy (hashedPassword u)" by blast
    from u(2) have "authenticate_found E password report (Inr (Some u)) =
        report (Inr None)"
      by (simp add: authenticate_found_def truthy_def split: option.splits)
    then show ?thesis
      by (simp add: step fin u(1))
  qed
qed

lemma find_matches_epoch_query:
  assumes "List.find (matches query) us = Some user"
  shows "\<exists>u \<in> set us. matches (epoch_query user) u"
proof -
  from assms have "user \<in> set us"
    by (auto simp: find_Some_iff)
  moreover have "matches (epoch_query user) user"
    by (simp add: matches_def epoch_query_def split: option.splits)
  ultimately show ?thesis by blast
qed


lemma update_first_login_match:
  assumes "\<exists>u \<in> set us. matches q u"
  shows "\<exists>i < length us. matches q (us ! i) \<and> (\<forall>j < i. \<not> matches q (us ! j)) \<and>
     update_first q (login_update match now) us =
       (1, us[i := apply_update (login_update match now) (us ! i)])"
proof -
  from update_first_cases [of us q "login_update match now"] assms
  obtain i where i: "i < length us" "matches q (us ! i)" "\<forall>j < i. \<not> matches q (us ! j)"
    "update_first q (login_update match now) us =
        (if apply_update (login_update match now) (us ! i) = us ! i then 0 else 1,
         us[i := apply_update (login_update match now) (us ! i)])"
    by blast
  from i(4) have "update_first q (login_update match now) us =
       (1, us[i := apply_update (login_update match now) (us ! i)])"
    by (simp add: login_update_changes)
  with i(1-3) show ?thesis by blast
qed

text \<open>Where \<open>setUserPasswordInV2\<close> can end: before the write with an error, with
  the error of the write, or after the write, with the breach check behind the
  callback.\<close>

lemma setUserPassword_updated_fault:
  "next_fault w = Some e \<Longrightarrow>
   updateOne q upd (setUserPassword_updated E password callback) w =
     callback (Inl e) (issue (UpdateOne q upd) w)"
  by (simp add: updateOne_fault setUserPassword_updated_def)

lemma setUserPassword_updated_ok:
  "next_fault w = None \<Longrightarrow>
   updateOne q upd (setUserPassword_updated E password callback) w =
     checkPasswordForReuseInBackground E password
       (callback (Inr (Some (fst (update_first q upd (users w)) = 1)))
          ((issue (UpdateOne q upd) w)\<lparr>users := snd (update_first q upd (users w))\<rparr>))"
  by (simp add: updateOne_ok setUserPassword_updated_def checkWriteResult_def)

lemma hashPassword_result:
  "\<exists>r. hashPassword E password callback = callback r \<and>
       (\<forall>hash. r = Inr hash \<longrightarrow> hashes_to E password hash)"
proof (cases "bcrypt_genSalt E (BCRYPT_ROUNDS E) (BCRYPT_MINOR_VERSION E)")
  case (Inl error)
  then have "hashPassword E password callback = callback (Inl error)"
    by (simp add: hashPassword_def)
  then show ?thesis by blast
next
  case (Inr salt)
  then have "hashPassword E password callback = callback (bcrypt_hash E password salt)"
    by (simp add: hashPassword_def)
  moreover from Inr have "\<forall>hash. bcrypt_hash E password salt = Inr hash \<longrightarrow>
      hashes_to E password hash"
    by (auto simp: hashes_to_def)
  ultimately show ?thesis by blast
qed

lemma setUserPassword_hashed_shapes:
  "(\<exists>e. setUserPassword_hashed E u password callback r w = callback (Inl e) w) \<or>
   (\<exists>hash e.
      setUserPassword_hashed E u password callback r w =
        callback (Inl e) (issue (UpdateOne (by_id u) (set_password_update hash)) w)) \<or>
   (\<exists>hash. r = Inr hash \<and> next_fault w = None \<and>
      setUserPassword_hashed E u password callback r w =
        checkPasswordForReuseInBackground E password
          (callback
             (Inr (Some (fst (update_first (by_id u) (set_password_update hash) (users w)) = 1)))
             ((issue (UpdateOne (by_id u) (set_password_update hash)) w)
                \<lparr>users := snd (update_first (by_id u) (set_password_update hash) (users w))\<rparr>)))"
proof (cases r)
  case (Inl error)
  then have "setUserPassword_hashed E u password callback r w = callback (Inl error) w"
    by (simp add: setUserPassword_hashed_def)
  then show ?thesis by blast
next
  case (Inr hash)
  then have eq: "setUserPassword_hashed E u password callback r w =
      updateOne (by_id u) (set_password_update hash)
          (setUserPassword_updated E password callback) w"
    by (simp add: setUserPassword_hashed_def)
  show ?thesis
  proof (cases "next_fault w")
    case None
    from eq setUserPassword_updated_ok [OF None] Inr None show ?thesis by metis
  next
    case (Some e)
    from eq setUserPassword_updated_fault [OF Some] show ?thesis by metis
  qed
qed

lemma setUserPasswordInV2_shapes:
  "(\<exists>e. setUserPasswordInV2 E user password callback w = callback (Inl e) w) \<or>
   (\<exists>u hash e. user = Some u \<and>
      setUserPasswordInV2 E user password callback w =
        callback (Inl e) (issue (UpdateOne (by_id u) (set_password_update hash)) w)) \<or>
   (\<exists>u hash. user = Some u \<and> truthy (user_email u) \<and> user_id u \<noteq> None \<and>
      validatePassword (Settings E) password (user_email u) = None \<and>
      hashes_to E password hash \<and> next_fault w = None \<and>
      setUserPasswordInV2 E user password callback w =
        checkPasswordForReuseInBackground E password
          (callback
             (Inr (Some (fst (update_first (by_id u) (set_password_update hash) (users w)) = 1)))
             ((issue (UpdateOne (by_id u) (set_password_update hash)) w)
                \<lparr>users := snd (update_first (by_id u) (set_password_update hash) (users w))\<rparr>)))"
proof (cases user)
  case None
  then have "setUserPasswordInV2 E user password callback w =
      callback (Inl (Error ''invalid user object'')) w"
    by (simp add: setUserPasswordInV2_def)
  then show ?thesis by blast
next
  case (Some u)
  show ?thesis
  proof (cases "\<not> truthy (user_email u) \<or> user_id u = None")
    case True
    with Some have "setUserPasswordInV2 E user password callback w =
      callback (Inl (Error ''invalid user object'')) w"
      by (simp add: setUserPasswordInV2_def)
    then show ?thesis by blast
  next
    case False
    then have valid: "truthy (user_email u)" "user_id u \<noteq> None" by simp_all
    show ?thesis
    proof (cases "validatePassword (Settings E) password (user_email u)")
      case (Some validationError)
      with False \<open>user = Some u\<close>
      have "setUserPasswordInV2 E user password callback w =
        callback (Inl validationError) w"
        by (auto simp: setUserPasswordInV2_def)
      then show ?thesis by blast
    next
      case None
      with False \<open>user = Some u\<close>
      have "setUserPasswordInV2 E user password callback w =
        hashPassword E password (setUserPassword_hashed E u password callback) w"
        by (auto simp: setUserPasswordInV2_def)
      with hashPassword_result [of E password "setUserPassword_hashed E u password callback"]
      obtain r where r: "setUserPasswordInV2 E user password callback w =
        setUserPassword_hashed E u password callback r w"
        "\<forall>hash. r = Inr hash \<longrightarrow> hashes_to E password hash"
        by auto
      from setUserPassword_hashed_shapes [of E u password callback r w]
      show ?thesis
      proof (elim disjE exE conjE)
        fix e
        assume "setUserPassword_hashed E u password callback r w = callback (Inl e) w"
        with r(1) show ?thesis by auto
      next
        fix hash e
        assume "setUserPassword_hashed E u password callback r w =
          callback (Inl e) (issue (UpdateOne (by_id u) (set_password_update hash)) w)"
        with r(1) \<open>user = Some u\<close> show ?thesis by auto
      next
        fix hash
        assume "r = Inr hash" and "next_fault w = None"
          and "setUserPassword_hashed E u password callback r w =
            checkPasswordForReuseInBackground E password
              (callback
                 (Inr (Some (fst (update_first (by_id u) (set_password_update hash)
                                   (users w)) = 1)))
                 ((issue (UpdateOne (by_id u) (set_password_update hash)) w)
                    \<lparr>users := snd (update_first (by_id u) (set_password_update hash)
                                    (users w))\<rparr>))"
        with r valid None \<open>user = Some u\<close>
        have "user = Some u \<and> truthy (user_email u) \<and> user_id u \<noteq> None \<and>
          validatePassword (Settings E) password (user_email u) = None \<and>
          hashes_to E password hash \<and> next_fault w = None \<and>
          setUserPasswordInV2 E user password callback w =
            checkPasswordForReuseInBackground E password
              (callback
                 (Inr (Some (fst (update_first (by_id u) (set_password_update hash)
                                   (users w)) = 1)))
                 ((issue (UpdateOne (by_id u) (set_password_update hash)) w)
                    \<lparr>users := snd (update_first (by_id u) (set_password_update hash)
                                    (users w))\<rparr>))"
          by simp
        then show ?thesis by blast
      qed
    qed
  qed
qed

lemma map_update_first:
  assumes "\<And>u. f (apply_update upd u) = f u"
  shows "map f (snd (update_first q upd us)) = map f us"
  by (induction us) (auto simp: assms split: prod.split)

lemma epoch_set_password [simp]:
  "loginEpoch (apply_update (set_password_update hash) u) = loginEpoch u"
  by (simp add: apply_set_password_update)

lemma id_apply_update [simp]: "user_id (apply_update upd u) = user_id u"
  by (simp add: apply_update_def Let_def split: option.split)

section \<open>The steps of authenticate\<close>

lemma authenticate_found_to_write:
  assumes "hashedPassword user = Some hashed" and "hashed \<noteq> []"
    and "bcrypt_compare E password hashed = Inr match"
  shows "authenticate_found E password callback (Inr (Some user)) w =
     updateOne (epoch_query user) (login_update match (clock w))
       (authenticate_updated E user hashed password match callback) w"
  using assms by (simp add: authenticate_found_def authenticate_compared_def)

lemma write_lost:
  assumes "next_fault w = None" and "\<forall>u \<in> set (users w). \<not> matches (epoch_query user) u"
  shows "updateOne (epoch_query user) upd
           (authenticate_updated E user hashed password match callback) w =
         callback (Inl ParallelLoginError) (issue (UpdateOne (epoch_query user) upd) w)"
proof -
  from assms(2) have "update_first (epoch_query user) upd (users w) = (0, users w)"
    by (rule update_first_no_match)
  with assms(1) show ?thesis
    by (simp add: updateOne_ok authenticate_updated_def issue_def)
qed

lemma write_landed:
  assumes "next_fault w = None" and "i < length (users w)"
    and "matches (epoch_query user) (users w ! i)"
    and "\<forall>j < i. \<not> matches (epoch_query user) (users w ! j)"
  shows "updateOne (epoch_query user) (login_update match now)
           (authenticate_updated E user hashed password match callback) w =
         authenticate_updated E user hashed password match callback (Inr 1)
           ((issue (UpdateOne (epoch_query user) (login_update match now)) w)
              \<lparr>users := (users w)[i := (users w ! i)
                  \<lparr>loginEpoch := loginEpoch (users w ! i) + 1,
                   lastFailedLogin :=
                     (if match then lastFailedLogin (users w ! i) else Some now)\<rparr>]\<rparr>)"
proof -
  from update_first_at [OF assms(2-4), of "login_update match now"]
  have "update_first (epoch_query user) (login_update match now) (users w) =
      (1, (users w)[i := apply_update (login_update match now) (users w ! i)])"
    by (simp add: login_update_changes)
  with assms(1) show ?thesis
    by (simp add: updateOne_ok apply_login_update)
qed

text \<open>Where the callback of the conditioned update can end once the update has
  been counted.\<close>

lemma authenticate_updated_shapes:
  "(\<exists>e. authenticate_updated E user hashed password match callback r w =
          callback (Inl e) w) \<or>
   (\<not> match \<and> r = Inr 1 \<and>
      authenticate_updated E user hashed password match callback r w =
        callback (Inr None) w) \<or>
   (match \<and> r = Inr 1 \<and>
      no_upgrade_due E hashed \<and>
      authenticate_updated E user hashed password match callback r w =
        checkPasswordForReuseInBackground E password (callback (Inr (Some user)) w)) \<or>
   (\<exists>e. match \<and> r = Inr 1 \<and>
      authenticate_updated E user hashed password match callback r w = thrown e w) \<or>
   (\<exists>hash e. match \<and> r = Inr 1 \<and>
      authenticate_updated E user hashed password match callback r w =
        callback (Inl e) (issue (UpdateOne (by_id user) (set_password_update hash)) w)) \<or>
   (\<exists>hash. match \<and> r = Inr 1 \<and> hashes_to E password hash \<and> user_id user \<noteq> None \<and>
      next_fault w = None \<and>
      authenticate_updated E user hashed password match callback r w =
        checkPasswordForReuseInBackground E password
          (checkPasswordForReuseInBackground E password
             (callback (Inr (Some user))
                ((issue (UpdateOne (by_id user) (set_password_update hash)) w)
                   \<lparr>users := snd (update_first (by_id user) (set_password_update hash)
                                   (users w))\<rparr>))))"
proof (cases r)
  case (Inl err)
  then have "authenticate_updated E user hashed password match callback r w =
      callback (Inl err) w"
    by (simp add: authenticate_updated_def)
  then show ?thesis by blast
next
  case (Inr nModified)
  show ?thesis
  proof (cases "nModified = 1")
    case False
    with Inr have "authenticate_updated E user hashed password match callback r w =
      callback (Inl ParallelLoginError) w"
      by (simp add: authenticate_updated_def)
    then show ?thesis by blast
  next
    case True
    with Inr have r: "r = Inr 1" by simp
    show ?thesis
    proof (cases match)
      case False
      with r have "authenticate_updated E user hashed password match callback r w =
        callback (Inr None) w"
        by (simp add: authenticate_updated_def)
      with False r show ?thesis by blast
    next
      case True
      with r have eq: "authenticate_updated E user hashed password match callback r w =
        checkRounds E user hashed password (authenticate_checked E user password callback) w"
        by (simp add: authenticate_updated_def)
      have direct: "authenticate_checked E user password callback (Inr None) w =
        checkPasswordForReuseInBackground E password (callback (Inr (Some user)) w)"
        by (simp add: authenticate_checked_def)
      show ?thesis
      proof (cases "disableBcryptRoundsUpgrades (security (Settings E))")
        case disabled: True
        with eq direct have "authenticate_updated E user hashed password match callback r w =
          checkPasswordForReuseInBackground E password (callback (Inr (Some user)) w)"
          by (simp add: checkRounds_def)
        moreover from disabled have "no_upgrade_due E hashed"
          by (simp add: no_upgrade_due_def)
        ultimately show ?thesis using True r by blast
      next
        case enabled: False
        show ?thesis
        proof (cases "bcrypt_getRounds E hashed")
          case (Inl e)
          with eq enabled have "authenticate_updated E user hashed password match callback r w =
            thrown e w"
            by (simp add: checkRounds_def)
          with True r show ?thesis by blast
        next
          case (Inr currentRounds)
          show ?thesis
          proof (cases "currentRounds < BCRYPT_ROUNDS E")
            case False
            with eq enabled Inr direct
            have "authenticate_updated E user hashed password match callback r w =
              checkPasswordForReuseInBackground E password (callback (Inr (Some user)) w)"
              by (simp add: checkRounds_def)
            moreover from Inr False have "no_upgrade_due E hashed"
              by (simp add: no_upgrade_due_def)
            ultimately show ?thesis using True r by blast
          next
            case lower: True
            with eq enabled Inr
            have eq2: "authenticate_updated E user hashed password match callback r w =
              setUserPasswordInV2 E (Some user) password
                (authenticate_checked E user password callback) w"
              by (simp add: checkRounds_def setUserPassword_def)
            from setUserPasswordInV2_shapes
              [of E "Some user" password "authenticate_checked E user password callback" w]
            show ?thesis
            proof (elim disjE exE conjE)
              fix e
              assume "setUserPasswordInV2 E (Some user) password
                (authenticate_checked E user password callback) w =
                authenticate_checked E user password callback (Inl e) w"
              with eq2 have "authenticate_updated E user hashed password match callback r w =
                callback (Inl e) w"
                by (simp add: authenticate_checked_def)
              then show ?thesis by blast
            next
              fix u hash e
              assume "Some user = Some u" and
                "setUserPasswordInV2 E (Some user) password
                  (authenticate_checked E user password callback) w =
                 authenticate_checked E user password callback (Inl e)
                   (issue (UpdateOne (by_id u) (set_password_update hash)) w)"
              with eq2 have "authenticate_updated E user hashed password match callback r w =
                callback (Inl e) (issue (UpdateOne (by_id user) (set_password_update hash)) w)"
                by (simp add: authenticate_checked_def)
              with True r show ?thesis by blast
            next
              fix u hash
              assume "Some user = Some u" and "hashes_to E password hash"
                and "user_id u \<noteq> None" and "next_fault w = None" and
                "setUserPasswordInV2 E (Some user) password
                  (authenticate_checked E user password callback) w =
                 checkPasswordForReuseInBackground E password
                  (authenticate_checked E user password callback
                    (Inr (Some (fst (update_first (by_id u) (set_password_update hash)
                                      (users w)) = 1)))
                    ((issue (UpdateOne (by_id u) (set_password_update hash)) w)
                       \<lparr>users := snd (update_first (by_id u) (set_password_update hash)
                                       (users w))\<rparr>))"
              with eq2 have "authenticate_updated E user hashed password match callback r w =
                checkPasswordForReuseInBackground E password
                  (checkPasswordForReuseInBackground E password
                     (callback (Inr (Some user))
                        ((issue (UpdateOne (by_id user) (set_password_update hash)) w)
                           \<lparr>users := snd (update_first (by_id user) (set_password_update hash)
                                           (users w))\<rparr>)))"
                by (simp add: authenticate_checked_def)
              moreover from \<open>Some user = Some u\<close> \<open>user_id u \<noteq> None\<close>
              have "user_id user \<noteq> None" by simp
              ultimately show ?thesis
                using True r \<open>hashes_to E password hash\<close> \<open>next_fault w = None\<close>
                by blast
            qed
          qed
        qed
      qed
    qed
  qed
qed

lemma authenticate_updated_report:
  "\<exists>es. trace (authenticate_updated E user hashed password match report r w) = trace w @ es \<and>
        tail_ok E password es \<and>
        map loginEpoch (users (authenticate_updated E user hashed password match report r w)) =
          map loginEpoch (users w) \<and>
        map user_id (users (authenticate_updated E user hashed password match report r w)) =
          map user_id (users w)"
  using authenticate_updated_shapes [of E user hashed password match report r w]
proof (elim disjE exE conjE)
  fix e
  assume "authenticate_updated E user hashed password match report r w = report (Inl e) w"
  then show ?thesis
    by (simp add: report_def tail_ok_def calls_simps results_simps)
next
  assume "authenticate_updated E user hashed password match report r w = report (Inr None) w"
  then show ?thesis
    by (simp add: report_def tail_ok_def calls_simps results_simps)
next
  assume "authenticate_updated E user hashed password match report r w =
    checkPasswordForReuseInBackground E password (report (Inr (Some user)) w)"
  then show ?thesis
    by (simp add: report_def tail_ok_def calls_simps results_simps
        checkPasswordForReuseInBackground_def)
next
  fix e
  assume "authenticate_updated E user hashed password match report r w = thrown e w"
  then show ?thesis
    by (simp add: thrown_def tail_ok_def calls_simps results_simps)
next
  fix hash e
  assume "authenticate_updated E user hashed password match report r w =
    report (Inl e) (issue (UpdateOne (by_id user) (set_password_update hash)) w)"
  then show ?thesis
    by (simp add: report_def issue_def tail_ok_def calls_simps results_simps by_id_def)
next
  fix hash
  assume "authenticate_updated E user hashed password match report r w =
    checkPasswordForReuseInBackground E password
      (checkPasswordForReuseInBackground E password
         (report (Inr (Some user))
            ((issue (UpdateOne (by_id user) (set_password_update hash)) w)
               \<lparr>users := snd (update_first (by_id user) (set_password_update hash)
                               (users w))\<rparr>)))"
  then show ?thesis
    by (simp add: report_def issue_def tail_ok_def calls_simps results_simps by_id_def
        checkPasswordForReuseInBackground_def map_update_first)
qed

lemma distinct_ids_first:
  assumes "distinct (map user_id us)" and "i < length us" and "j < i"
  shows "user_id (us ! j) \<noteq> user_id (us ! i)"
proof
  assume eq: "user_id (us ! j) = user_id (us ! i)"
  from assms have len: "j < length (map user_id us)" "i < length (map user_id us)"
    by simp_all
  from eq len have "map user_id us ! j = map user_id us ! i" by simp
  with nth_eq_iff_index_eq [OF assms(1) len] have "j = i" by simp
  with assms(3) show False by simp
qed

lemma matches_epoch_query:
  "user_id user = Some k \<Longrightarrow>
   matches (epoch_query user) u = (user_id u = Some k \<and> loginEpoch u = loginEpoch user)"
  by (simp add: matches_def epoch_query_def)

section \<open>Properties of the password policy\<close>

lemma policy_min_default: "policy_min Settings_default = 6"
  by (simp add: policy_min_def Settings_default_def num_or_def)

lemma validatePassword_null:
  "validatePassword S None email = Some (InvalidPasswordError ''password not set'' not_set)"
  by (simp add: validatePassword_def)

lemma validatePassword_short:
  "int (length pw) < policy_min S \<Longrightarrow>
   validatePassword S (Some pw) email =
     Some (InvalidPasswordError ''password is too short'' too_short)"
  by (simp add: validatePassword_def)

text \<open>
  Claim C4, as stated: an empty password yields \<open>not_set\<close>. It does not: the first
  check is \<open>password == null\<close>, which the empty string does not satisfy, so under the
  default policy the empty string is reported as \<open>too_short\<close>.
\<close>

theorem C4_empty_password_counterexample:
  "validatePassword Settings_default (Some []) None =
     Some (InvalidPasswordError ''password is too short'' too_short) \<and>
   validatePassword Settings_default (Some []) None \<noteq>
     Some (InvalidPasswordError ''password not set'' not_set)"
  by (simp add: validatePassword_short policy_min_default)

text \<open>
  Claim C4, amended: a password that is absent (\<open>null\<close> or \<open>undefined\<close>) yields
  \<open>not_set\<close> whatever the configured lengths are; the empty string is a password that
  is set, and it yields \<open>too_short\<close> whenever the effective minimum length is positive,
  as the default 6 is.
\<close>

theorem C4_absent_password_not_set:
  "validatePassword S None email =
     Some (InvalidPasswordError ''password not set'' not_set) \<and>
   (0 < policy_min S \<longrightarrow>
      validatePassword S (Some []) email =
        Some (InvalidPasswordError ''password is too short'' too_short))"
  by (simp add: validatePassword_null validatePassword_short)

theorem C4_absent_password_not_set_witness:
  "0 < policy_min Settings_default \<and>
   validatePassword Settings_default None (Some (js ''a@b.com'')) =
     Some (InvalidPasswordError ''password not set'' not_set) \<and>
   validatePassword Settings_default (Some []) (Some (js ''a@b.com'')) =
     Some (InvalidPasswordError ''password is too short'' too_short)"
  using C4_absent_password_not_set [of Settings_default "Some (js ''a@b.com'')"]
  by (simp add: policy_min_default)

text \<open>
  Claim C5: the checks run in the order \<open>not_set\<close>, \<open>too_short\<close>, \<open>too_long\<close>,
  \<open>invalid_character\<close>, \<open>contains_email\<close> and stop at the first failure: the code
  reported is the first rule of that order which the input violates (and there is no
  error exactly when it violates none). In particular a password shorter than the
  minimum is reported as \<open>too_short\<close>, also when it contains the email.
\<close>

theorem C5_first_violation_in_order:
  "(case validatePassword S password email of None \<Rightarrow> None | Some e \<Rightarrow> info_code e) =
     List.find (violates S password email) check_order \<and>
   (\<forall>pw. password = Some pw \<and> int (length pw) < policy_min S \<and>
          violates S password email contains_email \<longrightarrow>
      validatePassword S password email =
        Some (InvalidPasswordError ''password is too short'' too_short))"
proof
  show "(case validatePassword S password email of None \<Rightarrow> None | Some e \<Rightarrow> info_code e) =
          List.find (violates S password email) check_order"
  proof (cases password)
    case None
    then show ?thesis
      by (simp add: validatePassword_def check_order_def)
  next
    case (Some pw)
    then show ?thesis
      by (cases email) (simp_all add: validatePassword_def check_order_def Let_def)
  qed
next
  show "\<forall>pw. password = Some pw \<and> int (length pw) < policy_min S \<and>
          violates S password email contains_email \<longrightarrow>
      validatePassword S password email =
        Some (InvalidPasswordError ''password is too short'' too_short)"
    by (simp add: validatePassword_short)
qed

lemma indexOf_abc_local_part: "indexOf (js ''abc'') (split_at_0 (js ''a@b.com'')) = 0"
  by (simp add: indexOf_def split_at_0_def js_def)

theorem C5_first_violation_in_order_witness:
  "int (length (js ''abc'')) < policy_min Settings_default \<and>
   violates Settings_default (Some (js ''abc'')) (Some (js ''a@b.com'')) contains_email \<and>
   validatePassword Settings_default (Some (js ''abc'')) (Some (js ''a@b.com'')) =
     Some (InvalidPasswordError ''password is too short'' too_short) \<and>
   List.find (violates Settings_default (Some (js ''abc'')) (Some (js ''a@b.com'')))
     check_order = Some too_short"
proof -
  have short: "int (length (js ''abc'')) < policy_min Settings_default"
    by (simp add: policy_min_default js_def)
  have email: "violates Settings_default (Some (js ''abc'')) (Some (js ''a@b.com''))
                 contains_email"
    by (simp add: indexOf_abc_local_part) (simp add: js_def)
  note inst = C5_first_violation_in_order
      [of Settings_default "Some (js ''abc'')" "Some (js ''a@b.com'')"]
  from inst short email
  have res: "validatePassword Settings_default (Some (js ''abc'')) (Some (js ''a@b.com'')) =
      Some (InvalidPasswordError ''password is too short'' too_short)"
    by blast
  from inst have "List.find (violates Settings_default (Some (js ''abc'')) (Some (js ''a@b.com'')))
      check_order =
      (case validatePassword Settings_default (Some (js ''abc'')) (Some (js ''a@b.com'')) of
         None \<Rightarrow> None | Some e \<Rightarrow> info_code e)"
    by simp
  also have "\<dots> = Some too_short"
    by (simp add: res)
  finally show ?thesis
    using short email res by blast
qed

section \<open>Running the functions on the example\<close>

lemmas example_defs = example_world_def example_env_def example_user_def
  example_external_user_def by_email_def js_def

lemmas run_defs = authenticate_def User_findOne_def authenticate_found_def
  authenticate_compared_def updateOne_def authenticate_updated_def report_def issue_def
  next_fault_def matches_def epoch_query_def login_update_def apply_update_def Let_def

lemma example_wrong_login:
  "authenticate example_env (by_email (js ''ada@example.com'')) (Some (js ''guess'')) report
     example_world =
   \<lparr>users = [example_user\<lparr>loginEpoch := 6, lastFailedLogin := Some 1000\<rparr>,
             example_external_user],
    faults = [], clock = 1000,
    trace = [Called (FindOne (by_email (js ''ada@example.com''))),
             Called (UpdateOne (epoch_query example_user) (login_update False 1000)),
             Returned (Inr None)]\<rparr>"
  by (simp add: run_defs example_defs)


section \<open>Properties of authenticate\<close>

lemma authenticate_reaches_write:
  assumes "next_fault w = None" and "List.find (matches query) (users w) = Some user"
    and "hashedPassword user = Some hashed" and "hashed \<noteq> []"
    and "bcrypt_compare E password hashed = Inr match"
  shows "authenticate E query password callback w =
     updateOne (epoch_query user) (login_update match (clock w))
       (authenticate_updated E user hashed password match callback)
       (issue (FindOne query) w)"
proof -
  have "clock (issue (FindOne query) w) = clock w"
    by (simp add: issue_def)
  with assms show ?thesis
    by (simp add: authenticate_def User_findOne_ok
        authenticate_found_to_write [OF assms(3-5)])
qed

lemma authenticate_write_landed:
  assumes "next_fault w = None" and "List.find (matches query) (users w) = Some user"
    and "hashedPassword user = Some hashed" and "hashed \<noteq> []"
    and "bcrypt_compare E password hashed = Inr match"
    and "next_fault (issue (FindOne query) w) = None"
  shows "\<exists>i < length (users w). matches (epoch_query user) (users w ! i) \<and>
     (\<forall>j < i. \<not> matches (epoch_query user) (users w ! j)) \<and>
     authenticate E query password callback w =
       authenticate_updated E user hashed password match callback (Inr 1)
         ((issue (UpdateOne (epoch_query user) (login_update match (clock w)))
             (issue (FindOne query) w))
            \<lparr>users := (users w)[i := (users w ! i)
                \<lparr>loginEpoch := loginEpoch (users w ! i) + 1,
                 lastFailedLogin :=
                   (if match then lastFailedLogin (users w ! i) else Some (clock w))\<rparr>]\<rparr>)"
proof -
  from find_matches_epoch_query [OF assms(2)]
    update_first_login_match [of "users w" "epoch_query user" match "clock w"]
  obtain i where i: "i < length (users w)" "matches (epoch_query user) (users w ! i)"
    "\<forall>j < i. \<not> matches (epoch_query user) (users w ! j)"
    by blast
  have us: "users (issue (FindOne query) w) = users w"
    by (simp add: issue_def)
  from i us have i': "i < length (users (issue (FindOne query) w))"
    "matches (epoch_query user) (users (issue (FindOne query) w) ! i)"
    "\<forall>j < i. \<not> matches (epoch_query user) (users (issue (FindOne query) w) ! j)"
    by simp_all
  have "authenticate E query password callback w =
       authenticate_updated E user hashed password match callback (Inr 1)
         ((issue (UpdateOne (epoch_query user) (login_update match (clock w)))
             (issue (FindOne query) w))
            \<lparr>users := (users w)[i := (users w ! i)
                \<lparr>loginEpoch := loginEpoch (users w ! i) + 1,
                 lastFailedLogin :=
                   (if match then lastFailedLogin (users w ! i) else Some (clock w))\<rparr>]\<rparr>)"
    by (simp add: authenticate_reaches_write [OF assms(1-5)]
        write_landed [OF assms(6) i'] us)
  with i show ?thesis by blast
qed

lemma authenticate_wrong_password:
  assumes "faults w = []" and "List.find (matches query) (users w) = Some user"
    and "hashedPassword user = Some hashed" and "hashed \<noteq> []"
    and "bcrypt_compare E password hashed = Inr False"
  shows "\<exists>i < length (users w). matches (epoch_query user) (users w ! i) \<and>
     authenticate E query password report w =
       report (Inr None)
         ((issue (UpdateOne (epoch_query user) (login_update False (clock w)))
             (issue (FindOne query) w))
            \<lparr>users := (users w)[i := (users w ! i)
                \<lparr>loginEpoch := loginEpoch (users w ! i) + 1,
                 lastFailedLogin := Some (clock w)\<rparr>]\<rparr>)"
proof -
  from assms(1) have nf: "next_fault w = None" "next_fault (issue (FindOne query) w) = None"
    by (simp_all add: next_fault_def issue_def)
  from authenticate_write_landed [OF nf(1) assms(2-5) nf(2), of report]
  show ?thesis
    by (auto simp: authenticate_updated_def)
qed

text \<open>
  Claim C3: when the identifier matches no account, or the account found has no
  \<open>hashedPassword\<close>, \<open>authenticate\<close> answers \<open>callback(null, null)\<close> whatever the
  password is; the only call made is the read, so the collection is as it was and no
  write is attempted. A wrong password for an account with a hash is answered with the
  same \<open>callback(null, null)\<close>.
\<close>

theorem C3_no_account_generic_failure:
  assumes "next_fault w = None"
    and "List.find (matches query) (users w) = None \<or>
         (\<exists>u. List.find (matches query) (users w) = Some u \<and> \<not> truthy (hashedPassword u))"
  shows "authenticate E query password report w =
           report (Inr None) (issue (FindOne query) w) \<and>
         users (authenticate E query password report w) = users w \<and>
         calls (trace (authenticate E query password report w)) =
           calls (trace w) @ [FindOne query] \<and>
         filter is_write (calls (trace (authenticate E query password report w))) =
           filter is_write (calls (trace w)) \<and>
         results (trace (authenticate E query password report w)) =
           results (trace w) @ [Inr None] \<and>
         (\<forall>w' query' user hashed.
            faults w' = [] \<and> List.find (matches query') (users w') = Some user \<and>
            hashedPassword user = Some hashed \<and> hashed \<noteq> [] \<and>
            bcrypt_compare E password hashed = Inr False \<longrightarrow>
            results (trace (authenticate E query' password report w')) =
              results (trace w') @ [Inr None])"
proof -
  have eq: "authenticate E query password report w =
      report (Inr None) (issue (FindOne query) w)"
    by (simp add: authenticate_no_account [OF assms] report_def issue_def)
  have wrong: "results (trace (authenticate E query' password report w')) =
      results (trace w') @ [Inr None]"
    if "faults w' = [] \<and> List.find (matches query') (users w') = Some user \<and>
        hashedPassword user = Some hashed \<and> hashed \<noteq> [] \<and>
        bcrypt_compare E password hashed = Inr False"
    for w' :: "(error + user option) world" and query' user hashed
  proof -
    from that authenticate_wrong_password [of w' query' user hashed E password]
    obtain i where "authenticate E query' password report w' =
       report (Inr None)
         ((issue (UpdateOne (epoch_query user) (login_update False (clock w')))
             (issue (FindOne query') w'))
            \<lparr>users := (users w')[i := (users w' ! i)
                \<lparr>loginEpoch := loginEpoch (users w' ! i) + 1,
                 lastFailedLogin := Some (clock w')\<rparr>]\<rparr>)"
      by blast
    then show ?thesis
      by (simp add: report_def issue_def results_append results_simps)
  qed
  from wrong have same: "\<forall>w' query' user hashed.
            faults w' = [] \<and> List.find (matches query') (users w') = Some user \<and>
            hashedPassword user = Some hashed \<and> hashed \<noteq> [] \<and>
            bcrypt_compare E password hashed = Inr False \<longrightarrow>
            results (trace (authenticate E query' password report w')) =
              results (trace w') @ [Inr None]"
    by blast
  have "users (authenticate E query password report w) = users w"
    and "calls (trace (authenticate E query password report w)) =
           calls (trace w) @ [FindOne query]"
    and "filter is_write (calls (trace (authenticate E query password report w))) =
           filter is_write (calls (trace w))"
    and "results (trace (authenticate E query password report w)) =
           results (trace w) @ [Inr None]"
    by (simp_all add: eq report_def issue_def results_append results_simps calls_append
        calls_simps)
  with eq same show ?thesis
    by blast
qed

theorem C3_no_account_generic_failure_witness:
  "authenticate example_env (by_email (js ''nobody@example.com'')) (Some (js ''anything''))
     report example_world =
     \<lparr>users = [example_user, example_external_user], faults = [], clock = 1000,
      trace = [Called (FindOne (by_email (js ''nobody@example.com''))),
               Returned (Inr None)]\<rparr> \<and>
   authenticate example_env (by_email (js ''bob@example.com'')) (Some (js ''anything''))
     report example_world =
     \<lparr>users = [example_user, example_external_user], faults = [], clock = 1000,
      trace = [Called (FindOne (by_email (js ''bob@example.com''))),
               Returned (Inr None)]\<rparr> \<and>
   results (trace (authenticate example_env (by_email (js ''ada@example.com''))
     (Some (js ''anything'')) report example_world)) = [Inr None]"
proof -
  have nf: "next_fault (example_world :: (error + user option) world) = None"
    by (simp add: next_fault_def example_world_def)
  have unknown: "List.find (matches (by_email (js ''nobody@example.com'')))
      (users (example_world :: (error + user option) world)) = None \<or>
    (\<exists>u. List.find (matches (by_email (js ''nobody@example.com'')))
      (users (example_world :: (error + user option) world)) = Some u \<and>
      \<not> truthy (hashedPassword u))"
    by (simp add: example_defs matches_def)
  have external: "List.find (matches (by_email (js ''bob@example.com'')))
      (users (example_world :: (error + user option) world)) = None \<or>
    (\<exists>u. List.find (matches (by_email (js ''bob@example.com'')))
      (users (example_world :: (error + user option) world)) = Some u \<and>
      \<not> truthy (hashedPassword u))"
    by (simp add: example_defs matches_def truthy_def)
  note a = C3_no_account_generic_failure [OF nf unknown, of example_env "Some (js ''anything'')"]
  note b = C3_no_account_generic_failure [OF nf external, of example_env "Some (js ''anything'')"]
  from a have 1: "authenticate example_env (by_email (js ''nobody@example.com''))
      (Some (js ''anything'')) report example_world =
      report (Inr None) (issue (FindOne (by_email (js ''nobody@example.com''))) example_world)"
    by blast
  from b have 2: "authenticate example_env (by_email (js ''bob@example.com''))
      (Some (js ''anything'')) report example_world =
      report (Inr None) (issue (FindOne (by_email (js ''bob@example.com''))) example_world)"
    by blast
  have wrong: "faults (example_world :: (error + user option) world) = [] \<and>
      List.find (matches (by_email (js ''ada@example.com'')))
        (users (example_world :: (error + user option) world)) = Some example_user \<and>
      hashedPassword example_user = Some (10 # js ''analytical-engine'') \<and>
      10 # js ''analytical-engine'' \<noteq> [] \<and>
      bcrypt_compare example_env (Some (js ''anything'')) (10 # js ''analytical-engine'') =
        Inr False"
    by (simp add: example_defs matches_def)
  from a have "\<forall>w' query' user hashed.
            faults w' = [] \<and> List.find (matches query') (users w') = Some user \<and>
            hashedPassword user = Some hashed \<and> hashed \<noteq> [] \<and>
            bcrypt_compare example_env (Some (js ''anything'')) hashed = Inr False \<longrightarrow>
            results (trace (authenticate example_env query' (Some (js ''anything'')) report w')) =
              results (trace w') @ [Inr None]"
    by blast
  with wrong have 3: "results (trace (authenticate example_env (by_email (js ''ada@example.com''))
     (Some (js ''anything'')) report example_world)) =
     results (trace (example_world :: (error + user option) world)) @ [Inr None]"
    by blast
  show ?thesis
    by (simp add: 1 2 3 report_def issue_def results_simps) (simp add: example_world_def results_simps)
qed

text \<open>
  Claim C1: the callback of \<open>findOne\<close> runs with the user it read, in a world that other
  requests may have changed since the read. When the store answers the conditioned
  update and no stored document with the user's \<open>_id\<close> still has the \<open>loginEpoch\<close> that
  was read, the caller gets \<open>ParallelLoginError\<close>, which is not the generic failure, and
  the collection is left as it was. When the account still has that \<open>loginEpoch\<close>, the
  update lands on it and on nothing else: its counter goes from \<open>N\<close> to \<open>N + 1\<close>, the
  callback of the update goes on with a count of 1, and at the end of the call the
  counters of the collection are those of before with this one raised by 1.
\<close>

theorem C1_parallel_login:
  assumes "hashedPassword user = Some hashed" and "hashed \<noteq> []"
    and "bcrypt_compare E password hashed = Inr match"
    and "user_id user = Some k"
    and "next_fault w = None"
  shows
    "((\<forall>u \<in> set (users w). user_id u = Some k \<longrightarrow> loginEpoch u \<noteq> loginEpoch user) \<longrightarrow>
        authenticate_found E password callback (Inr (Some user)) w =
          callback (Inl ParallelLoginError)
            (issue (UpdateOne (epoch_query user) (login_update match (clock w))) w) \<and>
        Inl ParallelLoginError \<noteq> (Inr None :: error + user option) \<and>
        users (authenticate_found E password report (Inr (Some user)) w) = users w) \<and>
     (i < length (users w) \<and> user_id (users w ! i) = Some k \<and>
      loginEpoch (users w ! i) = loginEpoch user \<and> distinct (map user_id (users w)) \<longrightarrow>
        authenticate_found E password callback (Inr (Some user)) w =
          authenticate_updated E user hashed password match callback (Inr 1)
            ((issue (UpdateOne (epoch_query user) (login_update match (clock w))) w)
              \<lparr>users := (users w)[i := (users w ! i)
                 \<lparr>loginEpoch := loginEpoch user + 1,
                  lastFailedLogin :=
                    (if match then lastFailedLogin (users w ! i) else Some (clock w))\<rparr>]\<rparr>) \<and>
        map loginEpoch (users (authenticate_found E password report (Inr (Some user)) w)) =
          (map loginEpoch (users w))[i := loginEpoch user + 1])"
proof (intro conjI impI)
  assume differs: "\<forall>u \<in> set (users w). user_id u = Some k \<longrightarrow> loginEpoch u \<noteq> loginEpoch user"
  then have none: "\<forall>u \<in> set (users w). \<not> matches (epoch_query user) u"
    by (simp add: matches_epoch_query [OF assms(4)])
  have lost: "authenticate_found E password cb (Inr (Some user)) w =
      cb (Inl ParallelLoginError)
        (issue (UpdateOne (epoch_query user) (login_update match (clock w))) w)" for cb
    by (simp add: authenticate_found_to_write [OF assms(1-3)] write_lost [OF assms(5) none])
  from lost [of callback]
  show "authenticate_found E password callback (Inr (Some user)) w =
          callback (Inl ParallelLoginError)
            (issue (UpdateOne (epoch_query user) (login_update match (clock w))) w)"
    .
  show "Inl ParallelLoginError \<noteq> (Inr None :: error + user option)"
    by simp
  from lost [of report]
  show "users (authenticate_found E password report (Inr (Some user)) w) = users w"
    by (simp add: issue_def report_def)
next
  assume at_i: "i < length (users w) \<and> user_id (users w ! i) = Some k \<and>
      loginEpoch (users w ! i) = loginEpoch user \<and> distinct (map user_id (users w))"
  then have i: "i < length (users w)" and m: "matches (epoch_query user) (users w ! i)"
    by (simp_all add: matches_epoch_query [OF assms(4)])
  have first: "\<forall>j < i. \<not> matches (epoch_query user) (users w ! j)"
  proof (intro allI impI)
    fix j assume "j < i"
    with at_i distinct_ids_first [of "users w" i j]
    have "user_id (users w ! j) \<noteq> Some k" by simp
    then show "\<not> matches (epoch_query user) (users w ! j)"
      by (simp add: matches_epoch_query [OF assms(4)])
  qed
  have landed: "authenticate_found E password cb (Inr (Some user)) w =
      authenticate_updated E user hashed password match cb (Inr 1)
        ((issue (UpdateOne (epoch_query user) (login_update match (clock w))) w)
              \<lparr>users := (users w)[i := (users w ! i)
                 \<lparr>loginEpoch := loginEpoch user + 1,
                  lastFailedLogin :=
                    (if match then lastFailedLogin (users w ! i) else Some (clock w))\<rparr>]\<rparr>)" for cb
    using at_i
    by (simp add: authenticate_found_to_write [OF assms(1-3)]
        write_landed [OF assms(5) i m first])
  from landed [of callback]
  show "authenticate_found E password callback (Inr (Some user)) w =
      authenticate_updated E user hashed password match callback (Inr 1)
        ((issue (UpdateOne (epoch_query user) (login_update match (clock w))) w)
              \<lparr>users := (users w)[i := (users w ! i)
                 \<lparr>loginEpoch := loginEpoch user + 1,
                  lastFailedLogin :=
                    (if match then lastFailedLogin (users w ! i) else Some (clock w))\<rparr>]\<rparr>)" .
  from authenticate_updated_report [of E user hashed password match "Inr 1"
      "(issue (UpdateOne (epoch_query user) (login_update match (clock w))) w)
              \<lparr>users := (users w)[i := (users w ! i)
                 \<lparr>loginEpoch := loginEpoch user + 1,
                  lastFailedLogin :=
                    (if match then lastFailedLogin (users w ! i) else Some (clock w))\<rparr>]\<rparr>"]
  show "map loginEpoch (users (authenticate_found E password report (Inr (Some user)) w)) =
          (map loginEpoch (users w))[i := loginEpoch user + 1]"
    by (auto simp: landed [of report] map_update)
qed


theorem C1_parallel_login_witness:
  "users (authenticate example_env (by_email (js ''ada@example.com'')) (Some (js ''guess''))
            report example_world) =
     [example_user\<lparr>loginEpoch := 6, lastFailedLogin := Some 1000\<rparr>, example_external_user] \<and>
   authenticate_found example_env (Some (js ''analytical-engine'')) report
     (Inr (Some example_user))
     (authenticate example_env (by_email (js ''ada@example.com'')) (Some (js ''guess''))
        report example_world) =
     \<lparr>users = [example_user\<lparr>loginEpoch := 6, lastFailedLogin := Some 1000\<rparr>,
               example_external_user],
      faults = [], clock = 1000,
      trace = [Called (FindOne (by_email (js ''ada@example.com''))),
               Called (UpdateOne (epoch_query example_user) (login_update False 1000)),
               Returned (Inr None),
               Called (UpdateOne (epoch_query example_user) (login_update True 1000)),
               Returned (Inl ParallelLoginError)]\<rparr> \<and>
   map loginEpoch (users (authenticate_found example_env (Some (js ''analytical-engine''))
     report (Inr (Some example_user)) example_world)) = [6, 0]"
proof -
  have h: "hashedPassword example_user = Some (10 # js ''analytical-engine'')"
    "10 # js ''analytical-engine'' \<noteq> []"
    "bcrypt_compare example_env (Some (js ''analytical-engine''))
       (10 # js ''analytical-engine'') = Inr True"
    "user_id example_user = Some 7"
    by (simp_all add: example_defs)
  let ?w = "authenticate example_env (by_email (js ''ada@example.com'')) (Some (js ''guess''))
        report example_world :: (error + user option) world"
  have nf: "next_fault ?w = None"
    by (simp add: example_wrong_login next_fault_def)
  have differs: "\<forall>u \<in> set (users ?w). user_id u = Some 7 \<longrightarrow>
      loginEpoch u \<noteq> loginEpoch example_user"
    by (simp add: example_wrong_login) (simp add: example_defs)
  from C1_parallel_login [OF h nf, of report 0] differs
  have lost: "authenticate_found example_env (Some (js ''analytical-engine'')) report
     (Inr (Some example_user)) ?w =
     report (Inl ParallelLoginError)
       (issue (UpdateOne (epoch_query example_user) (login_update True (clock ?w))) ?w)"
    by blast
  have nf0: "next_fault (example_world :: (error + user option) world) = None"
    by (simp add: next_fault_def example_world_def)
  have at0: "0 < length (users (example_world :: (error + user option) world)) \<and>
      user_id (users (example_world :: (error + user option) world) ! 0) = Some 7 \<and>
      loginEpoch (users (example_world :: (error + user option) world) ! 0) =
        loginEpoch example_user \<and>
      distinct (map user_id (users (example_world :: (error + user option) world)))"
    by (simp add: example_defs)
  from C1_parallel_login [OF h nf0, of report 0] at0
  have won: "map loginEpoch (users (authenticate_found example_env
      (Some (js ''analytical-engine'')) report (Inr (Some example_user)) example_world)) =
      (map loginEpoch (users (example_world :: (error + user option) world)))
        [0 := loginEpoch example_user + 1]"
    by blast
  have first: "users ?w =
     [example_user\<lparr>loginEpoch := 6, lastFailedLogin := Some 1000\<rparr>, example_external_user]"
    by (simp add: example_wrong_login)
  have second: "authenticate_found example_env (Some (js ''analytical-engine'')) report
     (Inr (Some example_user)) ?w =
     \<lparr>users = [example_user\<lparr>loginEpoch := 6, lastFailedLogin := Some 1000\<rparr>,
               example_external_user],
      faults = [], clock = 1000,
      trace = [Called (FindOne (by_email (js ''ada@example.com''))),
               Called (UpdateOne (epoch_query example_user) (login_update False 1000)),
               Returned (Inr None),
               Called (UpdateOne (epoch_query example_user) (login_update True 1000)),
               Returned (Inl ParallelLoginError)]\<rparr>"
    by (subst lost) (simp add: example_wrong_login report_def issue_def)
  have third: "map loginEpoch (users (authenticate_found example_env
      (Some (js ''analytical-engine'')) report (Inr (Some example_user)) example_world)) =
      [6, 0]"
    by (subst won) (simp add: example_defs)
  from first second third show ?thesis
    by blast
qed

section \<open>Properties of setUserPassword\<close>

lemma matches_by_id:
  "user_id user = Some k \<Longrightarrow> matches (by_id user) u = (user_id u = Some k)"
  by (simp add: matches_def by_id_def)

lemma update_first_by_id:
  assumes "distinct (map user_id us)" and "i < length us" and "user_id (us ! i) = Some k"
    and "user_id user = Some k"
  shows "update_first (by_id user) upd us =
     (if apply_update upd (us ! i) = us ! i then 0 else 1, us[i := apply_update upd (us ! i)])"
proof -
  have m: "matches (by_id user) (us ! i)"
    using assms(3) by (simp add: matches_by_id [OF assms(4)])
  have first: "\<forall>j < i. \<not> matches (by_id user) (us ! j)"
  proof (intro allI impI)
    fix j assume "j < i"
    with assms distinct_ids_first [of us i j]
    have "user_id (us ! j) \<noteq> Some k" by simp
    then show "\<not> matches (by_id user) (us ! j)"
      by (simp add: matches_by_id [OF assms(4)])
  qed
  from update_first_at [OF assms(2) m first] show ?thesis .
qed

lemma setUserPasswordInV2_writes:
  assumes "truthy (user_email user)" and "user_id user \<noteq> None"
    and "validatePassword (Settings E) password (user_email user) = None"
    and "bcrypt_genSalt E (BCRYPT_ROUNDS E) (BCRYPT_MINOR_VERSION E) = Inr salt"
    and "bcrypt_hash E password salt = Inr hash"
  shows "setUserPasswordInV2 E (Some user) password callback =
     updateOne (by_id user) (set_password_update hash)
       (setUserPassword_updated E password callback)"
  using assms
  by (auto simp: setUserPasswordInV2_def hashPassword_def setUserPassword_hashed_def)

text \<open>
  Claim C10: when the user object is valid, the password passes the policy, the hash is
  computed and the store answers the write, \<open>setUserPassword\<close> issues one update, by
  \<open>_id\<close> alone, that sets \<open>hashedPassword\<close> to the new hash and unsets the legacy
  \<open>password\<close> field together; the stored document of the account changes in these two
  fields and in no other, every other document stays as it is, and the callback gets
  \<open>true\<close> exactly when the document changed.
\<close>

theorem C10_set_password_single_update:
  assumes "truthy (user_email user)" and "user_id user = Some k"
    and "validatePassword (Settings E) password (user_email user) = None"
    and "bcrypt_genSalt E (BCRYPT_ROUNDS E) (BCRYPT_MINOR_VERSION E) = Inr salt"
    and "bcrypt_hash E password salt = Inr hash"
    and "next_fault w = None"
    and "distinct (map user_id (users w))"
    and "i < length (users w)" and "user_id (users w ! i) = Some k"
  shows "setUserPassword E (Some user) password callback w =
           checkPasswordForReuseInBackground E password
             (callback
                (Inr (Some ((users w ! i)\<lparr>hashedPassword := Some hash, user_password := None\<rparr>
                            \<noteq> users w ! i)))
                ((issue (UpdateOne (by_id user)
                           \<lparr>inc_loginEpoch = None, set_lastFailedLogin = None,
                            set_hashedPassword = Some hash, unset_password = True\<rparr>) w)
                   \<lparr>users := (users w)[i := (users w ! i)
                       \<lparr>hashedPassword := Some hash, user_password := None\<rparr>]\<rparr>))"
proof -
  from assms(2) have id: "user_id user \<noteq> None" by simp
  have upd: "update_first (by_id user) (set_password_update hash) (users w) =
      (if (users w ! i)\<lparr>hashedPassword := Some hash, user_password := None\<rparr> = users w ! i
       then 0 else 1,
       (users w)[i := (users w ! i)\<lparr>hashedPassword := Some hash, user_password := None\<rparr>])"
    using update_first_by_id [OF assms(7-9) assms(2), of "set_password_update hash"]
    by (simp add: apply_set_password_update)
  have "setUserPassword E (Some user) password callback w =
      updateOne (by_id user) (set_password_update hash)
        (setUserPassword_updated E password callback) w"
    by (simp add: setUserPassword_def
        setUserPasswordInV2_writes [OF assms(1) id assms(3-5)])
  also have "\<dots> = checkPasswordForReuseInBackground E password
       (callback (Inr (Some (fst (update_first (by_id user) (set_password_update hash)
                                    (users w)) = 1)))
          ((issue (UpdateOne (by_id user) (set_password_update hash)) w)
             \<lparr>users := snd (update_first (by_id user) (set_password_update hash) (users w))\<rparr>))"
    by (rule setUserPassword_updated_ok [OF assms(6)])
  finally show ?thesis
    by (simp add: upd [unfolded set_password_update_def] set_password_update_def)
qed

theorem C10_set_password_single_update_witness:
  "setUserPassword example_env (Some example_user) (Some (js ''correct-battery'')) report
     example_world =
   \<lparr>users = [example_user\<lparr>hashedPassword := Some (12 # js ''correct-battery''),
                            user_password := None\<rparr>,
             example_external_user],
    faults = [], clock = 1000,
    trace = [Called (UpdateOne (by_id example_user)
               \<lparr>inc_loginEpoch = None, set_lastFailedLogin = None,
                set_hashedPassword = Some (12 # js ''correct-battery''),
                unset_password = True\<rparr>),
             Returned (Inr (Some True)),
             Called (CheckPasswordForReuseInBackground (Some (js ''correct-battery'')) False)]\<rparr>"
proof -
  have valid: "validatePassword (Settings example_env) (Some (js ''correct-battery''))
      (user_email example_user) = None"
    by (simp add: validatePassword_def example_defs policy_min_def policy_max_def
        policy_allowAnyChars_def Settings_default_def num_or_def passwordCharactersAreValid_def
        indexOf_def chars_digits_def chars_letters_def chars_lettersUp_def chars_symbols_def
        str_or_def split_at_0_def)
  have h: "truthy (user_email example_user)" "user_id example_user = Some 7"
    "bcrypt_genSalt example_env (BCRYPT_ROUNDS example_env) (BCRYPT_MINOR_VERSION example_env) =
       Inr [12]"
    "bcrypt_hash example_env (Some (js ''correct-battery'')) [12] =
       Inr (12 # js ''correct-battery'')"
    "next_fault (example_world :: (error + bool option) world) = None"
    "distinct (map user_id (users (example_world :: (error + bool option) world)))"
    "0 < length (users (example_world :: (error + bool option) world))"
    "user_id (users (example_world :: (error + bool option) world) ! 0) = Some 7"
    by (simp_all add: example_defs truthy_def BCRYPT_ROUNDS_def Settings_default_def
        num_or_def next_fault_def)
  show ?thesis
    by (subst C10_set_password_single_update [OF h(1,2) valid h(3-8)])
      (simp add: example_defs report_def issue_def checkPasswordForReuseInBackground_def
        by_id_def)
qed

section \<open>Hash migration\<close>

lemma authenticate_known_user_shapes:
  assumes "List.find (matches query) (users w) = Some user"
    and "hashedPassword user = Some hashed" and "hashed \<noteq> []"
  shows
    "(\<exists>e. authenticate E query password callback w =
            callback (Inl e) (issue (FindOne query) w)) \<or>
     (\<exists>match e. next_fault w = None \<and> bcrypt_compare E password hashed = Inr match \<and>
        authenticate E query password callback w =
          callback (Inl e)
            (issue (UpdateOne (epoch_query user) (login_update match (clock w)))
               (issue (FindOne query) w))) \<or>
     (\<exists>match i. next_fault w = None \<and> bcrypt_compare E password hashed = Inr match \<and>
        next_fault (issue (FindOne query) w) = None \<and>
        i < length (users w) \<and> matches (epoch_query user) (users w ! i) \<and>
        (\<forall>j < i. \<not> matches (epoch_query user) (users w ! j)) \<and>
        authenticate E query password callback w =
          authenticate_updated E user hashed password match callback (Inr 1)
            ((issue (UpdateOne (epoch_query user) (login_update match (clock w)))
                (issue (FindOne query) w))
               \<lparr>users := (users w)[i := (users w ! i)
                   \<lparr>loginEpoch := loginEpoch (users w ! i) + 1,
                    lastFailedLogin :=
                      (if match then lastFailedLogin (users w ! i) else Some (clock w))\<rparr>]\<rparr>))"
proof (cases "next_fault w")
  case (Some e)
  then have "authenticate E query password callback w =
      callback (Inl e) (issue (FindOne query) w)"
    by (simp add: authenticate_def User_findOne_def authenticate_found_def)
  then show ?thesis by blast
next
  case None
  show ?thesis
  proof (cases "bcrypt_compare E password hashed")
    case (Inl e)
    with None assms have "authenticate E query password callback w =
      callback (Inl e) (issue (FindOne query) w)"
      by (simp add: authenticate_def User_findOne_ok authenticate_found_def
          authenticate_compared_def)
    then show ?thesis by blast
  next
    case (Inr match)
    show ?thesis
    proof (cases "next_fault (issue (FindOne query) w)")
      case (Some e)
      then have "authenticate E query password callback w =
          callback (Inl e)
            (issue (UpdateOne (epoch_query user) (login_update match (clock w)))
               (issue (FindOne query) w))"
        by (simp add: authenticate_reaches_write [OF None assms Inr] updateOne_fault
            authenticate_updated_def)
      with None Inr show ?thesis by blast
    next
      case nf: None
      from authenticate_write_landed [OF None assms Inr nf, of callback] None Inr nf
      show ?thesis by blast
    qed
  qed
qed

lemma results_report: "results (trace (report r w)) = results (trace w) @ [r]"
  by (simp add: report_def results_append results_simps)

lemma results_issue: "results (trace (issue c w)) = results (trace w)"
  by (simp add: issue_def results_append results_simps)

lemma results_thrown: "results (trace (thrown e w)) = results (trace w)"
  by (simp add: thrown_def results_append results_simps)

lemma users_check: "users (checkPasswordForReuseInBackground E password w) = users w"
  by (simp add: checkPasswordForReuseInBackground_def)

lemma users_report: "users (report r w) = users w"
  by (simp add: report_def)

lemma authenticate_updated_success:
  assumes "results (trace (authenticate_updated E user hashed password match report r w)) =
           results (trace w) @ [Inr (Some user')]"
  shows "no_upgrade_due E hashed \<or>
     (\<exists>hash. hashes_to E password hash \<and> user_id user \<noteq> None \<and>
        users (authenticate_updated E user hashed password match report r w) =
          snd (update_first (by_id user) (set_password_update hash) (users w)))"
  using authenticate_updated_shapes [of E user hashed password match report r w]
proof (elim disjE exE conjE)
  fix e
  assume "authenticate_updated E user hashed password match report r w = report (Inl e) w"
  with assms show ?thesis by (simp add: results_report)
next
  assume "authenticate_updated E user hashed password match report r w = report (Inr None) w"
  with assms show ?thesis by (simp add: results_report)
next
  assume "no_upgrade_due E hashed"
  then show ?thesis by simp
next
  fix e
  assume "authenticate_updated E user hashed password match report r w = thrown e w"
  with assms show ?thesis by (simp add: results_thrown)
next
  fix hash e
  assume "authenticate_updated E user hashed password match report r w =
    report (Inl e) (issue (UpdateOne (by_id user) (set_password_update hash)) w)"
  with assms show ?thesis by (simp add: results_report results_issue)
next
  fix hash
  assume "hashes_to E password hash" and "user_id user \<noteq> None"
    and "authenticate_updated E user hashed password match report r w =
      checkPasswordForReuseInBackground E password
        (checkPasswordForReuseInBackground E password
           (report (Inr (Some user))
              ((issue (UpdateOne (by_id user) (set_password_update hash)) w)
                 \<lparr>users := snd (update_first (by_id user) (set_password_update hash)
                                 (users w))\<rparr>)))"
  then have "hashes_to E password hash \<and> user_id user \<noteq> None \<and>
        users (authenticate_updated E user hashed password match report r w) =
          snd (update_first (by_id user) (set_password_update hash) (users w))"
    by (simp add: users_check users_report)
  then show ?thesis by blast
qed

text \<open>
  Claim C6: take an account whose stored hash has fewer rounds than the target, with
  upgrades not switched off, in a collection whose \<open>_id\<close>s are distinct, and a \<open>bcrypt\<close>
  that keeps its promise for this password. Whenever \<open>authenticate\<close> reports success
  for it, which takes the correct password, the account's stored \<open>hashedPassword\<close> is a
  new hash whose rounds are the target and against which the same password verifies.
\<close>

theorem C6_rehash_on_login:
  assumes "List.find (matches query) (users w) = Some user"
    and "hashedPassword user = Some hashed" and "hashed \<noteq> []"
    and "bcrypt_getRounds E hashed = Inr currentRounds"
    and "currentRounds < BCRYPT_ROUNDS E"
    and "\<not> disableBcryptRoundsUpgrades (security (Settings E))"
    and "distinct (map user_id (users w))"
    and "bcrypt_sound E password"
    and "results (trace (authenticate E query password report w)) =
         results (trace w) @ [Inr (Some user)]"
  shows "\<exists>i hash. i < length (users w) \<and> users w ! i = user \<and>
     i < length (users (authenticate E query password report w)) \<and>
     user_id (users (authenticate E query password report w) ! i) = user_id user \<and>
     hashedPassword (users (authenticate E query password report w) ! i) = Some hash \<and>
     bcrypt_getRounds E hash = Inr (BCRYPT_ROUNDS E) \<and>
     bcrypt_compare E password hash = Inr True"
  using authenticate_known_user_shapes [OF assms(1-3), of E password report]
proof (elim disjE exE conjE)
  fix e
  assume "authenticate E query password report w = report (Inl e) (issue (FindOne query) w)"
  with assms(9) show ?thesis by (simp add: results_report results_issue)
next
  fix match e
  assume "authenticate E query password report w =
          report (Inl e)
            (issue (UpdateOne (epoch_query user) (login_update match (clock w)))
               (issue (FindOne query) w))"
  with assms(9) show ?thesis by (simp add: results_report results_issue)
next
  fix match i
  let ?u1 = "(users w ! i)
                   \<lparr>loginEpoch := loginEpoch (users w ! i) + 1,
                    lastFailedLogin :=
                      (if match then lastFailedLogin (users w ! i) else Some (clock w))\<rparr>"
  let ?W = "(issue (UpdateOne (epoch_query user) (login_update match (clock w)))
                (issue (FindOne query) w))
               \<lparr>users := (users w)[i := ?u1]\<rparr>"
  assume i: "i < length (users w)" "matches (epoch_query user) (users w ! i)"
    and eq: "authenticate E query password report w =
          authenticate_updated E user hashed password match report (Inr 1) ?W"
  have "results (trace ?W) = results (trace w)"
    by (simp add: results_issue)
  with assms(9) eq
  have "results (trace (authenticate_updated E user hashed password match report (Inr 1) ?W)) =
      results (trace ?W) @ [Inr (Some user)]"
    by simp
  from authenticate_updated_success [OF this]
  have "\<exists>hash. hashes_to E password hash \<and> user_id user \<noteq> None \<and>
        users (authenticate_updated E user hashed password match report (Inr 1) ?W) =
          snd (update_first (by_id user) (set_password_update hash) (users ?W))"
    using assms(4-6) by (auto simp: no_upgrade_due_def)
  then obtain hash k where hash: "hashes_to E password hash" and k: "user_id user = Some k"
    and us: "users (authenticate E query password report w) =
          snd (update_first (by_id user) (set_password_update hash) ((users w)[i := ?u1]))"
    using eq by auto
  from i(2) k have idi: "user_id (users w ! i) = Some k"
    by (simp add: matches_epoch_query)
  from assms(1) have "user \<in> set (users w)"
    by (auto simp: find_Some_iff)
  then obtain j where j: "j < length (users w)" "users w ! j = user"
    by (auto simp: in_set_conv_nth)
  have "j = i"
  proof -
    from j i(1) have len: "j < length (map user_id (users w))"
      "i < length (map user_id (users w))" by simp_all
    from j idi k i(1) have "map user_id (users w) ! j = map user_id (users w) ! i" by simp
    with nth_eq_iff_index_eq [OF assms(7) len] show ?thesis by simp
  qed
  with j have at_i: "users w ! i = user" by simp
  have "(map user_id (users w))[i := user_id (users w ! i)] = map user_id (users w)"
    using i(1) by (simp add: list_update_same_conv)
  with assms(7) have d: "distinct (map user_id ((users w)[i := ?u1]))"
    by (simp add: map_update)
  have "update_first (by_id user) (set_password_update hash) ((users w)[i := ?u1]) =
      (if apply_update (set_password_update hash) (((users w)[i := ?u1]) ! i) =
          ((users w)[i := ?u1]) ! i then 0 else 1,
       ((users w)[i := ?u1])[i := apply_update (set_password_update hash)
          (((users w)[i := ?u1]) ! i)])"
    using i(1) idi by (intro update_first_by_id [OF d _ _ k]) simp_all
  with us i(1)
  have final: "users (authenticate E query password report w) =
      (users w)[i := apply_update (set_password_update hash) ?u1]"
    by simp
  from hash assms(8) have law: "bcrypt_getRounds E hash = Inr (BCRYPT_ROUNDS E)"
    "bcrypt_compare E password hash = Inr True"
    by (simp_all add: bcrypt_sound_def)
  from final i(1) idi k
  have "i < length (users (authenticate E query password report w))"
    "user_id (users (authenticate E query password report w) ! i) = user_id user"
    "hashedPassword (users (authenticate E query password report w) ! i) = Some hash"
    by (simp_all add: apply_set_password_update)
  with i(1) at_i law show ?thesis by blast
qed


lemma example_password_valid:
  "validatePassword Settings_default (Some (js ''analytical-engine''))
     (Some (js ''ada@example.com'')) = None"
  by (simp add: validatePassword_def js_def policy_min_def policy_max_def
      policy_allowAnyChars_def Settings_default_def num_or_def passwordCharactersAreValid_def
      indexOf_def chars_digits_def chars_letters_def chars_lettersUp_def chars_symbols_def
      str_or_def split_at_0_def)

lemmas manager_defs = authenticate_def User_findOne_def authenticate_found_def
  authenticate_compared_def updateOne_def authenticate_updated_def checkRounds_def
  setUserPassword_def setUserPasswordInV2_def hashPassword_def setUserPassword_hashed_def
  setUserPassword_updated_def checkWriteResult_def authenticate_checked_def
  checkPasswordForReuseInBackground_def report_def issue_def next_fault_def thrown_def
  matches_def epoch_query_def login_update_def apply_update_def by_id_def
  set_password_update_def truthy_def BCRYPT_ROUNDS_def BCRYPT_MINOR_VERSION_def
  Settings_default_def num_or_def str_or_def Let_def

lemma example_login:
  "authenticate example_env (by_email (js ''ada@example.com''))
     (Some (js ''analytical-engine'')) report example_world =
   \<lparr>users = [example_user\<lparr>hashedPassword := Some (12 # js ''analytical-engine''),
                            user_password := None, loginEpoch := 6\<rparr>,
             example_external_user],
    faults = [], clock = 1000,
    trace = [Called (FindOne (by_email (js ''ada@example.com''))),
             Called (UpdateOne (epoch_query example_user) (login_update True 1000)),
             Called (UpdateOne (by_id example_user)
                       (set_password_update (12 # js ''analytical-engine''))),
             Returned (Inr (Some example_user)),
             Called (CheckPasswordForReuseInBackground (Some (js ''analytical-engine'')) False),
             Called (CheckPasswordForReuseInBackground (Some (js ''analytical-engine'')) False)]\<rparr>"
  by (simp add: manager_defs example_defs
      example_password_valid [unfolded js_def Settings_default_def, simplified])

theorem C6_rehash_on_login_witness:
  "results (trace (authenticate example_env (by_email (js ''ada@example.com''))
     (Some (js ''analytical-engine'')) report example_world)) = [Inr (Some example_user)] \<and>
   bcrypt_getRounds example_env (10 # js ''analytical-engine'') = Inr 10 \<and>
   10 < BCRYPT_ROUNDS example_env \<and>
   (\<exists>i hash. i < length (users (example_world :: (error + user option) world)) \<and>
     users (example_world :: (error + user option) world) ! i = example_user \<and>
     i < length (users (authenticate example_env (by_email (js ''ada@example.com''))
       (Some (js ''analytical-engine'')) report example_world)) \<and>
     user_id (users (authenticate example_env (by_email (js ''ada@example.com''))
       (Some (js ''analytical-engine'')) report example_world) ! i) = user_id example_user \<and>
     hashedPassword (users (authenticate example_env (by_email (js ''ada@example.com''))
       (Some (js ''analytical-engine'')) report example_world) ! i) = Some hash \<and>
     bcrypt_getRounds example_env hash = Inr (BCRYPT_ROUNDS example_env) \<and>
     bcrypt_compare example_env (Some (js ''analytical-engine'')) hash = Inr True)"
proof -
  have found: "List.find (matches (by_email (js ''ada@example.com'')))
      (users (example_world :: (error + user option) world)) = Some example_user"
    by (simp add: example_defs matches_def)
  have h: "hashedPassword example_user = Some (10 # js ''analytical-engine'')"
    "10 # js ''analytical-engine'' \<noteq> []"
    "bcrypt_getRounds example_env (10 # js ''analytical-engine'') = Inr 10"
    "10 < BCRYPT_ROUNDS example_env"
    "\<not> disableBcryptRoundsUpgrades (security (Settings example_env))"
    "distinct (map user_id (users (example_world :: (error + user option) world)))"
    by (simp_all add: example_defs BCRYPT_ROUNDS_def Settings_default_def num_or_def)
  have sound: "bcrypt_sound example_env (Some (js ''analytical-engine''))"
    by (auto simp: bcrypt_sound_def hashes_to_def example_env_def BCRYPT_ROUNDS_def
        Settings_default_def num_or_def)
  have success: "results (trace (authenticate example_env (by_email (js ''ada@example.com''))
     (Some (js ''analytical-engine'')) report example_world)) =
     results (trace (example_world :: (error + user option) world)) @ [Inr (Some example_user)]"
    by (simp add: example_login results_simps) (simp add: example_world_def results_simps)
  have first: "results (trace (authenticate example_env (by_email (js ''ada@example.com''))
     (Some (js ''analytical-engine'')) report example_world)) = [Inr (Some example_user)]"
    by (simp add: example_login results_simps)
  from C6_rehash_on_login [OF found h(1-6) sound success] first h(3,4)
  show ?thesis by blast
qed

section \<open>The login epoch never goes down\<close>

lemma epochs_le_refl: "epochs_le us us"
  by (simp add: epochs_le_def)

lemma epochs_le_trans:
  assumes "epochs_le us us'" and "epochs_le us' us''"
  shows "epochs_le us us''"
proof -
  from assms have len: "length us \<le> length us'" "length us' \<le> length us''"
    by (simp_all add: epochs_le_def)
  have "user_id (us'' ! i) = user_id (us ! i) \<and> loginEpoch (us ! i) \<le> loginEpoch (us'' ! i)"
    if "i < length us" for i
  proof -
    from that len have i': "i < length us'" by simp
    from assms(1) that have a: "user_id (us' ! i) = user_id (us ! i)"
      "loginEpoch (us ! i) \<le> loginEpoch (us' ! i)"
      by (simp_all add: epochs_le_def)
    from assms(2) i' have b: "user_id (us'' ! i) = user_id (us' ! i)"
      "loginEpoch (us' ! i) \<le> loginEpoch (us'' ! i)"
      by (simp_all add: epochs_le_def)
    from a b show ?thesis by simp
  qed
  with len show ?thesis by (simp add: epochs_le_def)
qed

lemma epochs_le_maps:
  assumes "map user_id us' = map user_id us"
    and "map loginEpoch us' = map loginEpoch us"
  shows "epochs_le us us'"
proof -
  from assms(1) have len: "length us' = length us"
    by (rule map_eq_imp_length_eq)
  have "user_id (us' ! i) = user_id (us ! i) \<and> loginEpoch (us ! i) \<le> loginEpoch (us' ! i)"
    if "i < length us" for i
  proof -
    from that len have "map user_id us' ! i = user_id (us' ! i)"
      "map user_id us ! i = user_id (us ! i)"
      "map loginEpoch us' ! i = loginEpoch (us' ! i)"
      "map loginEpoch us ! i = loginEpoch (us ! i)"
      by simp_all
    with assms show ?thesis by simp
  qed
  with len show ?thesis by (simp add: epochs_le_def)
qed

lemma epochs_le_set_password:
  "epochs_le us (snd (update_first q (set_password_update hash) us))"
  by (rule epochs_le_maps) (simp_all add: map_update_first)

lemma copy_paths_keep:
  "user_id (fold (copy_path doc) paths u) = user_id u \<and>
   loginEpoch (fold (copy_path doc) paths u) = loginEpoch u"
proof (induction paths arbitrary: u)
  case Nil
  then show ?case by simp
next
  case (Cons p ps)
  have "user_id (copy_path doc p u) = user_id u \<and>
        loginEpoch (copy_path doc p u) = loginEpoch u"
    by (cases p) simp_all
  with Cons.IH [of "copy_path doc p u"] show ?case by simp
qed

lemma epochs_le_save: "epochs_le us (save_into doc paths us)"
proof (induction us)
  case Nil
  then show ?case by (simp add: epochs_le_def)
next
  case (Cons u us)
  show ?case
  proof (cases "user_id u = user_id doc")
    case True
    then show ?thesis
      by (auto simp: epochs_le_def copy_paths_keep nth_Cons split: nat.split)
  next
    case False
    with Cons.IH show ?thesis
      by (auto simp: epochs_le_def nth_Cons split: nat.split)
  qed
qed

lemma setUserPasswordInV2_epochs:
  "epochs_le (users w) (users (setUserPasswordInV2 E user password report w))"
  using setUserPasswordInV2_shapes [of E user password report w]
proof (elim disjE exE conjE)
  fix e
  assume "setUserPasswordInV2 E user password report w = report (Inl e) w"
  then show ?thesis by (simp add: users_report epochs_le_refl)
next
  fix u hash e
  assume "setUserPasswordInV2 E user password report w =
    report (Inl e) (issue (UpdateOne (by_id u) (set_password_update hash)) w)"
  then show ?thesis by (simp add: users_report users_issue epochs_le_refl)
next
  fix u hash
  assume "setUserPasswordInV2 E user password report w =
        checkPasswordForReuseInBackground E password
          (report
             (Inr (Some (fst (update_first (by_id u) (set_password_update hash) (users w)) = 1)))
             ((issue (UpdateOne (by_id u) (set_password_update hash)) w)
                \<lparr>users := snd (update_first (by_id u) (set_password_update hash) (users w))\<rparr>))"
  then show ?thesis by (simp add: users_report users_check epochs_le_set_password)
qed

lemma authenticate_epochs:
  "epochs_le (users w) (users (authenticate E query password report w))"
proof (cases "next_fault w")
  case (Some e)
  then have "authenticate E query password report w = report (Inl e) (issue (FindOne query) w)"
    by (simp add: authenticate_def User_findOne_def authenticate_found_def)
  then show ?thesis by (simp add: users_report users_issue epochs_le_refl)
next
  case None
  show ?thesis
  proof (cases "List.find (matches query) (users w) = None \<or>
         (\<exists>u. List.find (matches query) (users w) = Some u \<and> \<not> truthy (hashedPassword u))")
    case True
    from authenticate_no_account [OF None True, of E password]
    show ?thesis by (simp add: epochs_le_refl)
  next
    case False
    then obtain user where user: "List.find (matches query) (users w) = Some user"
      by (cases "List.find (matches query) (users w)") simp_all
    with False have "truthy (hashedPassword user)" by simp
    then obtain hashed where hashed: "hashedPassword user = Some hashed" "hashed \<noteq> []"
      by (cases "hashedPassword user") (simp_all add: truthy_def)
    note known = user hashed
    from authenticate_known_user_shapes [OF known, of E password report]
    show ?thesis
    proof (elim disjE exE conjE)
      fix e
      assume "authenticate E query password report w =
        report (Inl e) (issue (FindOne query) w)"
      then show ?thesis by (simp add: users_report users_issue epochs_le_refl)
    next
      fix match e
      assume "authenticate E query password report w =
          report (Inl e)
            (issue (UpdateOne (epoch_query user) (login_update match (clock w)))
               (issue (FindOne query) w))"
      then show ?thesis by (simp add: users_report users_issue epochs_le_refl)
    next
      fix match i
      let ?us = "(users w)[i := (users w ! i)
                   \<lparr>loginEpoch := loginEpoch (users w ! i) + 1,
                    lastFailedLogin :=
                      (if match then lastFailedLogin (users w ! i) else Some (clock w))\<rparr>]"
      let ?W = "(issue (UpdateOne (epoch_query user) (login_update match (clock w)))
                (issue (FindOne query) w))\<lparr>users := ?us\<rparr>"
      assume i: "i < length (users w)"
        and eq: "authenticate E query password report w =
          authenticate_updated E user hashed password match report (Inr 1) ?W"
      from authenticate_updated_report [of E user hashed password match "Inr 1" ?W]
      have "epochs_le ?us (users (authenticate E query password report w))"
        by (auto simp: eq intro: epochs_le_maps)
      moreover have "epochs_le (users w) ?us"
        using i by (auto simp: epochs_le_def nth_list_update)
      ultimately show ?thesis by (rule epochs_le_trans [rotated])
    qed
  qed
qed

section \<open>The conditioned update of authenticate\<close>

lemma authenticate_write_shapes:
  assumes "next_fault w = None" and "List.find (matches query) (users w) = Some user"
    and "hashedPassword user = Some hashed" and "hashed \<noteq> []"
    and "bcrypt_compare E password hashed = Inr match"
  shows
    "(\<exists>e. authenticate E query password callback w =
          callback (Inl e)
            (issue (UpdateOne (epoch_query user) (login_update match (clock w)))
               (issue (FindOne query) w))) \<or>
     (\<exists>i. next_fault (issue (FindOne query) w) = None \<and>
        i < length (users w) \<and> matches (epoch_query user) (users w ! i) \<and>
        (\<forall>j < i. \<not> matches (epoch_query user) (users w ! j)) \<and>
        authenticate E query password callback w =
          authenticate_updated E user hashed password match callback (Inr 1)
            ((issue (UpdateOne (epoch_query user) (login_update match (clock w)))
                (issue (FindOne query) w))
               \<lparr>users := (users w)[i := (users w ! i)
                   \<lparr>loginEpoch := loginEpoch (users w ! i) + 1,
                    lastFailedLogin :=
                      (if match then lastFailedLogin (users w ! i) else Some (clock w))\<rparr>]\<rparr>))"
proof (cases "next_fault (issue (FindOne query) w)")
  case (Some e)
  then have "authenticate E query password callback w =
      callback (Inl e)
        (issue (UpdateOne (epoch_query user) (login_update match (clock w)))
           (issue (FindOne query) w))"
    by (simp add: authenticate_reaches_write [OF assms] updateOne_fault
        authenticate_updated_def)
  then show ?thesis by blast
next
  case None
  from authenticate_write_landed [OF assms None, of callback] None
  show ?thesis by blast
qed

lemma trace_issue: "trace (issue c w) = trace w @ [Called c]"
  by (simp add: issue_def)

lemma trace_report: "trace (report r w) = trace w @ [Returned r]"
  by (simp add: report_def)


lemma Document_save_ok:
  "next_fault w = None \<Longrightarrow>
   Document_save doc paths (save_callback callback) w =
     callback (Inr doc) ((issue (Save doc) w)\<lparr>users := save_into doc paths (users w)\<rparr>)"
  by (simp add: Document_save_def save_callback_def)

lemma Document_save_fault:
  "next_fault w = Some e \<Longrightarrow>
   Document_save doc paths (save_callback callback) w = callback (Inl e) (issue (Save doc) w)"
  by (simp add: Document_save_def save_callback_def)

lemma doPassportLogin_fault:
  "next_fault w = Some e \<Longrightarrow>
   doPassportLogin E claims callback w =
     callback (Inl e) (issue (FindOne (sub_query claims)) w)"
  by (simp add: doPassportLogin_def User_findOne_def)

lemma doPassportLogin_create:
  assumes "next_fault w = None"
    and "List.find (matches (sub_query claims)) (users w) = None \<or>
         (\<exists>u. List.find (matches (sub_query claims)) (users w) = Some u \<and>
              \<not> truthy (hashedPassword u))"
  shows "doPassportLogin E claims callback w =
     UserRegistrationHandler_registerNewUser E (registration_details E claims)
       (registered claims callback) (issue (FindOne (sub_query claims)) w)"
  using assms
  by (auto simp: doPassportLogin_def User_findOne_ok createIfNotExistAndLogin_def Let_def)

lemma doPassportLogin_update:
  assumes "next_fault w = None"
    and "List.find (matches (sub_query claims)) (users w) = Some u"
    and "truthy (hashedPassword u)"
  shows "doPassportLogin E claims callback w =
     Document_save
       (u\<lparr>user_email := claims_email claims, first_name := given_name claims,
          last_name := family_name claims\<rparr>)
       [P_email, P_first_name, P_last_name] (save_callback callback)
       (issue (FindOne (sub_query claims)) w)"
  using assms
  by (simp add: doPassportLogin_def User_findOne_ok createIfNotExistAndLogin_def Let_def)

text \<open>The document that \<open>createIfNotExistAndLogin\<close> saves for a user that was just
  registered, whose first email entry is \<open>e\<close>.\<close>

lemma registered_error:
  "registered claims callback (Inl error) w = callback (Inl error) w"
  by (simp add: registered_def)

lemma registered_no_email:
  "emails user = [] \<Longrightarrow> registered claims callback (Inr user) w = thrown TypeError w"
  by (simp add: registered_def)

lemma registered_saves:
  "emails user = e # es \<Longrightarrow>
   registered claims callback (Inr user) w =
     Document_save
       (user\<lparr>admin := Some False,
             emails := e\<lparr>confirmedAt := Some (clock w)\<rparr> # es,
             thirdPartyIdentifiers := thirdPartyIdentifiers user @ [sub claims]\<rparr>)
       [P_admin, P_emails, P_thirdPartyIdentifiers] (save_callback callback) w"
  by (simp add: registered_def)

lemma users_thrown: "users (thrown e w) = users w"
  by (simp add: thrown_def)

lemma save_epochs:
  "epochs_le (users w) (users (Document_save doc paths (save_callback report) w))"
proof (cases "next_fault w")
  case None
  then show ?thesis
    by (simp add: Document_save_ok users_report epochs_le_save)
next
  case (Some e)
  then show ?thesis
    by (simp add: Document_save_fault users_report users_issue epochs_le_refl)
qed

lemma doPassportLogin_epochs:
  assumes "\<forall>details us. epochs_le us (snd (registerNewUser E details us))"
  shows "epochs_le (users w) (users (doPassportLogin E claims report w))"
proof (cases "next_fault w")
  case (Some e)
  then show ?thesis
    by (simp add: doPassportLogin_fault users_report users_issue epochs_le_refl)
next
  case None
  let ?W = "issue (FindOne (sub_query claims)) w"
  have W: "users ?W = users w" by (simp add: issue_def)
  show ?thesis
  proof (cases "List.find (matches (sub_query claims)) (users w) = None \<or>
         (\<exists>u. List.find (matches (sub_query claims)) (users w) = Some u \<and>
              \<not> truthy (hashedPassword u))")
    case True
    let ?d = "registration_details E claims"
    let ?W1 = "?W\<lparr>users := snd (registerNewUser E ?d (users ?W)),
                   trace := trace ?W @ [Called (RegisterNewUser ?d)]\<rparr>"
    have eq: "doPassportLogin E claims report w =
        registered claims report (fst (registerNewUser E ?d (users ?W))) ?W1"
      by (simp add: doPassportLogin_create [OF None True]
          UserRegistrationHandler_registerNewUser_def split: prod.split)
    from assms have le1: "epochs_le (users w) (users ?W1)"
      by (simp add: W)
    have "epochs_le (users ?W1) (users (registered claims report r ?W1))" for r
    proof (cases r)
      case (Inl error)
      then show ?thesis by (simp add: registered_error users_report epochs_le_refl)
    next
      case (Inr user)
      show ?thesis
      proof (cases "emails user")
        case Nil
        with Inr show ?thesis
          by (simp add: registered_no_email users_thrown epochs_le_refl)
      next
        case (Cons e es)
        with Inr show ?thesis
          by (simp only: registered_saves [OF Cons] save_epochs)
      qed
    qed
    with le1 show ?thesis
      unfolding eq by (rule epochs_le_trans)
  next
    case False
    then obtain u where u: "List.find (matches (sub_query claims)) (users w) = Some u"
      by (cases "List.find (matches (sub_query claims)) (users w)") simp_all
    with False have "truthy (hashedPassword u)" by simp
    from doPassportLogin_update [OF None u this, of E report] save_epochs [of ?W]
    show ?thesis by (simp add: W)
  qed
qed

text \<open>
  Claim C2: a call of \<open>authenticate\<close> that reaches the write step (the read is answered
  with a user that has a hash, and the comparison gives \<open>match\<close>) issues exactly one
  conditioned update, which increments \<open>loginEpoch\<close> by 1 whether the password matched
  or not; when it did not match, that update also sets \<open>lastFailedLogin\<close> to the time
  of the call, and once the store has applied it the caller gets the generic failure.
  No operation decrements \<open>loginEpoch\<close>: after \<open>authenticate\<close>, after
  \<open>setUserPasswordInV2\<close>, and after \<open>doPassportLogin\<close> with a registration collaborator
  that does not decrement it either, every account's counter is at least what it was.
\<close>

theorem C2_one_conditioned_increment:
  "(next_fault w = None \<and> List.find (matches query) (users w) = Some user \<and>
    hashedPassword user = Some hashed \<and> hashed \<noteq> [] \<and>
    bcrypt_compare E password hashed = Inr match \<longrightarrow>
      filter is_conditioned (calls (trace (authenticate E query password report w))) =
        filter is_conditioned (calls (trace w)) @
          [UpdateOne (epoch_query user)
             \<lparr>inc_loginEpoch = Some 1,
              set_lastFailedLogin = (if match then None else Some (clock w)),
              set_hashedPassword = None, unset_password = False\<rparr>] \<and>
      (\<not> match \<and> next_fault (issue (FindOne query) w) = None \<longrightarrow>
         (\<exists>i < length (users w). matches (epoch_query user) (users w ! i) \<and>
            authenticate E query password report w =
              report (Inr None)
                ((issue (UpdateOne (epoch_query user) (login_update False (clock w)))
                    (issue (FindOne query) w))
                   \<lparr>users := (users w)[i := (users w ! i)
                       \<lparr>loginEpoch := loginEpoch (users w ! i) + 1,
                        lastFailedLogin := Some (clock w)\<rparr>]\<rparr>)))) \<and>
   epochs_le (users w) (users (authenticate E query password report w)) \<and>
   epochs_le (users w2) (users (setUserPasswordInV2 E user2 password2 report w2)) \<and>
   ((\<forall>details us. epochs_le us (snd (registerNewUser E details us))) \<longrightarrow>
      epochs_le (users w3) (users (doPassportLogin E claims report w3)))"
proof (intro conjI impI)
  assume reach: "next_fault w = None \<and> List.find (matches query) (users w) = Some user \<and>
    hashedPassword user = Some hashed \<and> hashed \<noteq> [] \<and>
    bcrypt_compare E password hashed = Inr match"
  then have r: "next_fault w = None" "List.find (matches query) (users w) = Some user"
    "hashedPassword user = Some hashed" "hashed \<noteq> []"
    "bcrypt_compare E password hashed = Inr match"
    by simp_all
  have upd: "login_update match (clock w) =
      \<lparr>inc_loginEpoch = Some 1,
       set_lastFailedLogin = (if match then None else Some (clock w)),
       set_hashedPassword = None, unset_password = False\<rparr>"
    by (simp add: login_update_def)
  from authenticate_write_shapes [OF r, of report]
  have "filter is_conditioned (calls (trace (authenticate E query password report w))) =
        filter is_conditioned (calls (trace w)) @
          [UpdateOne (epoch_query user) (login_update match (clock w))]"
  proof (elim disjE exE conjE)
    fix e
    assume "authenticate E query password report w =
          report (Inl e)
            (issue (UpdateOne (epoch_query user) (login_update match (clock w)))
               (issue (FindOne query) w))"
    then show ?thesis
      by (simp add: trace_report trace_issue calls_append calls_simps epoch_query_def)
  next
    fix i
    let ?W = "(issue (UpdateOne (epoch_query user) (login_update match (clock w)))
                (issue (FindOne query) w))
               \<lparr>users := (users w)[i := (users w ! i)
                   \<lparr>loginEpoch := loginEpoch (users w ! i) + 1,
                    lastFailedLogin :=
                      (if match then lastFailedLogin (users w ! i) else Some (clock w))\<rparr>]\<rparr>"
    assume eq: "authenticate E query password report w =
          authenticate_updated E user hashed password match report (Inr 1) ?W"
    from authenticate_updated_report [of E user hashed password match "Inr 1" ?W]
    obtain es where es: "trace (authenticate E query password report w) = trace ?W @ es"
      "tail_ok E password es"
      using eq by auto
    from es(2) have "filter is_conditioned (calls es) = []"
      by (simp add: tail_ok_def)
    with es(1) show ?thesis
      by (simp add: trace_issue calls_append calls_simps epoch_query_def)
  qed
  then show "filter is_conditioned (calls (trace (authenticate E query password report w))) =
        filter is_conditioned (calls (trace w)) @
          [UpdateOne (epoch_query user)
             \<lparr>inc_loginEpoch = Some 1,
              set_lastFailedLogin = (if match then None else Some (clock w)),
              set_hashedPassword = None, unset_password = False\<rparr>]"
    by (simp add: upd)
  assume wrong: "\<not> match \<and> next_fault (issue (FindOne query) w) = None"
  with r(5) have cmp: "bcrypt_compare E password hashed = Inr False" by simp
  from authenticate_write_landed [OF r(1-4) cmp, where callback = report] wrong
  show "\<exists>i < length (users w). matches (epoch_query user) (users w ! i) \<and>
            authenticate E query password report w =
              report (Inr None)
                ((issue (UpdateOne (epoch_query user) (login_update False (clock w)))
                    (issue (FindOne query) w))
                   \<lparr>users := (users w)[i := (users w ! i)
                       \<lparr>loginEpoch := loginEpoch (users w ! i) + 1,
                        lastFailedLogin := Some (clock w)\<rparr>]\<rparr>)"
    by (auto simp: authenticate_updated_def)
next
  show "epochs_le (users w) (users (authenticate E query password report w))"
    by (rule authenticate_epochs)
  show "epochs_le (users w2) (users (setUserPasswordInV2 E user2 password2 report w2))"
    by (rule setUserPasswordInV2_epochs)
next
  assume "\<forall>details us. epochs_le us (snd (registerNewUser E details us))"
  then show "epochs_le (users w3) (users (doPassportLogin E claims report w3))"
    by (rule doPassportLogin_epochs)
qed


theorem C2_one_conditioned_increment_witness:
  "filter is_conditioned (calls (trace (authenticate example_env
     (by_email (js ''ada@example.com'')) (Some (js ''guess'')) report example_world))) =
     [UpdateOne (epoch_query example_user)
        \<lparr>inc_loginEpoch = Some 1, set_lastFailedLogin = Some 1000,
         set_hashedPassword = None, unset_password = False\<rparr>] \<and>
   (\<exists>i < length (users (example_world :: (error + user option) world)).
      matches (epoch_query example_user) (users (example_world :: (error + user option) world) ! i) \<and>
      authenticate example_env (by_email (js ''ada@example.com'')) (Some (js ''guess'')) report
        example_world =
        report (Inr None)
          ((issue (UpdateOne (epoch_query example_user) (login_update False 1000))
              (issue (FindOne (by_email (js ''ada@example.com''))) example_world))
             \<lparr>users := (users (example_world :: (error + user option) world))
                 [i := (users (example_world :: (error + user option) world) ! i)
                 \<lparr>loginEpoch :=
                    loginEpoch (users (example_world :: (error + user option) world) ! i) + 1,
                  lastFailedLogin := Some 1000\<rparr>]\<rparr>)) \<and>
   epochs_le (users (example_world :: (error + user option) world))
     (users (authenticate example_env (by_email (js ''ada@example.com''))
        (Some (js ''guess'')) report example_world)) \<and>
   (\<forall>details us. epochs_le us (snd (registerNewUser example_env details us))) \<and>
   epochs_le (users (example_world :: (error + user) world))
     (users (doPassportLogin example_env
        \<lparr>sub = js ''subject-9'', claims_email = Some (js ''eve@example.com''),
         given_name = None, family_name = None\<rparr> report example_world))"
proof -
  have reach: "next_fault (example_world :: (error + user option) world) = None \<and>
    List.find (matches (by_email (js ''ada@example.com'')))
      (users (example_world :: (error + user option) world)) = Some example_user \<and>
    hashedPassword example_user = Some (10 # js ''analytical-engine'') \<and>
    10 # js ''analytical-engine'' \<noteq> [] \<and>
    bcrypt_compare example_env (Some (js ''guess'')) (10 # js ''analytical-engine'') = Inr False"
    by (simp add: example_defs matches_def next_fault_def)
  have nf: "next_fault (issue (FindOne (by_email (js ''ada@example.com'')))
      (example_world :: (error + user option) world)) = None"
    by (simp add: next_fault_def issue_def example_world_def)
  have reg: "\<forall>details us. epochs_le us (snd (registerNewUser example_env details us))"
    by (simp add: example_env_def example_registerNewUser_def fresh_id_def Let_def epochs_le_def
        nth_append)
  note inst = C2_one_conditioned_increment [of example_world "by_email (js ''ada@example.com'')"
      example_user "10 # js ''analytical-engine''" example_env "Some (js ''guess'')" False
      example_world None None example_world
      "\<lparr>sub = js ''subject-9'', claims_email = Some (js ''eve@example.com''),
        given_name = None, family_name = None\<rparr>"]
  have c: "clock (example_world :: (error + user option) world) = 1000"
    "calls (trace (example_world :: (error + user option) world)) = []"
    by (simp_all add: example_world_def calls_simps)
  from inst reach nf reg show ?thesis
    by (simp add: c)
qed

section \<open>Linking an external identity\<close>



lemma register_step:
  "registerNewUser E details (users w) = (r, us) \<Longrightarrow>
   UserRegistrationHandler_registerNewUser E details callback w =
     callback r (w\<lparr>users := us, trace := trace w @ [Called (RegisterNewUser details)]\<rparr>)"
  by (simp add: UserRegistrationHandler_registerNewUser_def)

lemma doPassportLogin_first:
  assumes "next_fault w = None"
    and "List.find (matches (sub_query claims)) (users w) = None \<or>
         (\<exists>u. List.find (matches (sub_query claims)) (users w) = Some u \<and>
              \<not> truthy (hashedPassword u))"
    and "registerNewUser E (registration_details E claims) (users w) = (r, us)"
  shows "doPassportLogin E claims callback w =
     registered claims callback r
       ((issue (FindOne (sub_query claims)) w)
          \<lparr>users := us,
           trace := trace (issue (FindOne (sub_query claims)) w) @
             [Called (RegisterNewUser (registration_details E claims))]\<rparr>)"
proof -
  have "users (issue (FindOne (sub_query claims)) w) = users w"
    by (simp add: issue_def)
  with assms(3) show ?thesis
    by (simp add: doPassportLogin_create [OF assms(1,2)] register_step)
qed

lemmas linking_defs = doPassportLogin_def User_findOne_def createIfNotExistAndLogin_def
  UserRegistrationHandler_registerNewUser_def registered_def Document_save_def
  save_callback_def registration_details_def report_def issue_def next_fault_def
  sub_query_def matches_def truthy_def example_registerNewUser_def fresh_id_def Let_def
  example_claims_def example_new_user_def example_linked_user_def

text \<open>
  Claim C8, as stated: a first-seen claim leaves either a complete account (created,
  confirmed, linked) or nothing. With a registration collaborator that stores the
  account it creates, and a store that fails the save that follows, the account is
  stored with no subject identifier and no confirmed email, and the caller gets the
  error.
\<close>

theorem C8_partial_link_counterexample:
  "doPassportLogin example_env example_claims report
     (example_world\<lparr>faults := [None, Some (Error ''save failed'')]\<rparr>) =
   \<lparr>users = [example_user, example_external_user, example_new_user],
    faults = [], clock = 1000,
    trace = [Called (FindOne (sub_query example_claims)),
             Called (RegisterNewUser (registration_details example_env example_claims)),
             Called (Save example_linked_user),
             Returned (Inl (Error ''save failed''))]\<rparr> \<and>
   thirdPartyIdentifiers example_new_user = [] \<and>
   map confirmedAt (emails example_new_user) = [None]"
  by (simp add: linking_defs example_defs)

text \<open>
  Claim C8, amended: for a first-seen claim \<open>createIfNotExistAndLogin\<close> makes two writes
  one after the other, the registration collaborator's own and then one \<open>save\<close>. When
  the registration fails, the caller gets its error and the function writes nothing
  itself. When it succeeds, the one \<open>save\<close> carries \<open>admin = false\<close>, the confirmation of
  the first email entry and the subject identifier together. When that \<open>save\<close> fails,
  the caller gets the error and the collection stays as the registration left it.
\<close>

theorem C8_register_then_one_save:
  assumes "next_fault w = None"
    and "List.find (matches (sub_query claims)) (users w) = None \<or>
         (\<exists>u. List.find (matches (sub_query claims)) (users w) = Some u \<and>
              \<not> truthy (hashedPassword u))"
    and "registerNewUser E (registration_details E claims) (users w) = (r, us)"
    and "W = (issue (FindOne (sub_query claims)) w)
               \<lparr>users := us,
                trace := trace (issue (FindOne (sub_query claims)) w) @
                  [Called (RegisterNewUser (registration_details E claims))]\<rparr>"
  shows
    "(\<forall>error. r = Inl error \<longrightarrow>
        doPassportLogin E claims report w = report (Inl error) W) \<and>
     (\<forall>user e es doc.
        r = Inr user \<and> emails user = e # es \<and>
        doc = user\<lparr>admin := Some False,
                   emails := e\<lparr>confirmedAt := Some (clock w)\<rparr> # es,
                   thirdPartyIdentifiers := thirdPartyIdentifiers user @ [sub claims]\<rparr> \<longrightarrow>
        (next_fault W = None \<longrightarrow>
           doPassportLogin E claims report w =
             report (Inr doc)
               ((issue (Save doc) W)
                  \<lparr>users := save_into doc [P_admin, P_emails, P_thirdPartyIdentifiers] us\<rparr>)) \<and>
        (\<forall>err. next_fault W = Some err \<longrightarrow>
           doPassportLogin E claims report w = report (Inl err) (issue (Save doc) W) \<and>
           users (doPassportLogin E claims report w) = us))"
proof -
  have eq: "doPassportLogin E claims report w = registered claims report r W"
    unfolding assms(4) by (rule doPassportLogin_first [OF assms(1-3)])
  have c: "clock W = clock w" and u: "users W = us"
    by (simp_all add: assms(4) issue_def)
  show ?thesis
  proof (intro conjI allI impI)
    fix error assume "r = Inl error"
    then show "doPassportLogin E claims report w = report (Inl error) W"
      by (simp add: eq registered_error)
  next
    fix user e es doc
    assume h: "r = Inr user \<and> emails user = e # es \<and>
        doc = user\<lparr>admin := Some False,
                   emails := e\<lparr>confirmedAt := Some (clock w)\<rparr> # es,
                   thirdPartyIdentifiers := thirdPartyIdentifiers user @ [sub claims]\<rparr>"
    then have em: "emails user = e # es" by simp
    from h have saves: "doPassportLogin E claims report w =
        Document_save doc [P_admin, P_emails, P_thirdPartyIdentifiers]
          (save_callback report) W"
      by (simp add: eq registered_saves [OF em] c)
    {
      assume "next_fault W = None"
      then show "doPassportLogin E claims report w =
             report (Inr doc)
               ((issue (Save doc) W)
                  \<lparr>users := save_into doc [P_admin, P_emails, P_thirdPartyIdentifiers] us\<rparr>)"
        by (simp add: saves Document_save_ok u)
    }
    {
      fix err assume f: "next_fault W = Some err"
      then show "doPassportLogin E claims report w = report (Inl err) (issue (Save doc) W)"
        by (simp add: saves Document_save_fault)
      from f show "users (doPassportLogin E claims report w) = us"
        by (simp add: saves Document_save_fault users_report users_issue u)
    }
  qed
qed


theorem C8_register_then_one_save_witness:
  "doPassportLogin example_env example_claims report
     (example_world\<lparr>faults := [None, Some (Error ''save failed'')]\<rparr>) =
     report (Inl (Error ''save failed''))
       (issue (Save example_linked_user)
          ((issue (FindOne (sub_query example_claims))
              (example_world\<lparr>faults := [None, Some (Error ''save failed'')]\<rparr>))
             \<lparr>users := [example_user, example_external_user, example_new_user],
              trace := [Called (FindOne (sub_query example_claims)),
                Called (RegisterNewUser (registration_details example_env example_claims))]\<rparr>)) \<and>
   users (doPassportLogin example_env example_claims report
     (example_world\<lparr>faults := [None, Some (Error ''save failed'')]\<rparr>)) =
     [example_user, example_external_user, example_new_user] \<and>
   doPassportLogin example_env example_claims report example_world =
     report (Inr example_linked_user)
       ((issue (Save example_linked_user)
          ((issue (FindOne (sub_query example_claims)) example_world)
             \<lparr>users := [example_user, example_external_user, example_new_user],
              trace := [Called (FindOne (sub_query example_claims)),
                Called (RegisterNewUser (registration_details example_env example_claims))]\<rparr>))
         \<lparr>users := [example_user, example_external_user, example_linked_user]\<rparr>) \<and>
   doPassportLogin
     (example_env\<lparr>registerNewUser :=
        (\<lambda>details us. (Inl (Error ''request is not valid''), us))\<rparr>)
     example_claims report example_world =
     report (Inl (Error ''request is not valid''))
       ((issue (FindOne (sub_query example_claims)) example_world)
          \<lparr>users := [example_user, example_external_user],
           trace := [Called (FindOne (sub_query example_claims)),
             Called (RegisterNewUser (registration_details example_env example_claims))]\<rparr>)"
proof -
  let ?w1 = "example_world\<lparr>faults := [None, Some (Error ''save failed'')]\<rparr>
    :: (error + user) world"
  let ?w2 = "example_world :: (error + user) world"
  let ?E3 = "example_env\<lparr>registerNewUser :=
        (\<lambda>details us. (Inl (Error ''request is not valid''), us))\<rparr>"
  let ?us = "[example_user, example_external_user, example_new_user]"
  let ?tr = "[Called (FindOne (sub_query example_claims)),
                Called (RegisterNewUser (registration_details example_env example_claims))]
    :: (error + user) event list"
  have nf: "next_fault ?w1 = None" "next_fault ?w2 = None"
    by (simp_all add: next_fault_def example_world_def)
  have first_seen: "List.find (matches (sub_query example_claims)) (users ?w1) = None \<or>
      (\<exists>u. List.find (matches (sub_query example_claims)) (users ?w1) = Some u \<and>
           \<not> truthy (hashedPassword u))"
    "List.find (matches (sub_query example_claims)) (users ?w2) = None \<or>
      (\<exists>u. List.find (matches (sub_query example_claims)) (users ?w2) = Some u \<and>
           \<not> truthy (hashedPassword u))"
    by (simp_all add: example_defs matches_def sub_query_def example_claims_def)
  have reg: "registerNewUser example_env (registration_details example_env example_claims)
      (users ?w1) = (Inr example_new_user, ?us)"
    "registerNewUser example_env (registration_details example_env example_claims)
      (users ?w2) = (Inr example_new_user, ?us)"
    "registerNewUser ?E3 (registration_details ?E3 example_claims)
      (users ?w2) = (Inl (Error ''request is not valid''), [example_user, example_external_user])"
    by (simp_all add: example_defs example_registerNewUser_def fresh_id_def registration_details_def
        example_claims_def example_new_user_def Let_def)
  have W1: "(issue (FindOne (sub_query example_claims)) ?w1)\<lparr>users := ?us, trace := ?tr\<rparr> =
      (issue (FindOne (sub_query example_claims)) ?w1)
        \<lparr>users := ?us,
         trace := trace (issue (FindOne (sub_query example_claims)) ?w1) @
           [Called (RegisterNewUser (registration_details example_env example_claims))]\<rparr>"
    by (simp add: issue_def example_world_def)
  have W2: "(issue (FindOne (sub_query example_claims)) ?w2)\<lparr>users := ?us, trace := ?tr\<rparr> =
      (issue (FindOne (sub_query example_claims)) ?w2)
        \<lparr>users := ?us,
         trace := trace (issue (FindOne (sub_query example_claims)) ?w2) @
           [Called (RegisterNewUser (registration_details example_env example_claims))]\<rparr>"
    by (simp add: issue_def example_world_def)
  have W3: "(issue (FindOne (sub_query example_claims)) ?w2)
        \<lparr>users := [example_user, example_external_user], trace := ?tr\<rparr> =
      (issue (FindOne (sub_query example_claims)) ?w2)
        \<lparr>users := [example_user, example_external_user],
         trace := trace (issue (FindOne (sub_query example_claims)) ?w2) @
           [Called (RegisterNewUser (registration_details ?E3 example_claims))]\<rparr>"
    by (simp add: issue_def example_world_def registration_details_def example_env_def)
  have doc: "emails example_new_user =
      [\<lparr>address = js ''eve@example.com'', confirmedAt = None\<rparr>]"
    "example_linked_user = example_new_user
       \<lparr>admin := Some False,
        emails := [\<lparr>address = js ''eve@example.com'', confirmedAt = None\<rparr>
                     \<lparr>confirmedAt := Some (clock ?w1)\<rparr>],
        thirdPartyIdentifiers := thirdPartyIdentifiers example_new_user @ [sub example_claims]\<rparr>"
    "example_linked_user = example_new_user
       \<lparr>admin := Some False,
        emails := [\<lparr>address = js ''eve@example.com'', confirmedAt = None\<rparr>
                     \<lparr>confirmedAt := Some (clock ?w2)\<rparr>],
        thirdPartyIdentifiers := thirdPartyIdentifiers example_new_user @ [sub example_claims]\<rparr>"
    by (simp_all add: example_linked_user_def example_new_user_def example_claims_def
        example_world_def)
  have f1: "next_fault ((issue (FindOne (sub_query example_claims)) ?w1)
      \<lparr>users := ?us, trace := ?tr\<rparr>) = Some (Error ''save failed'')"
    by (simp add: next_fault_def issue_def)
  have f2: "next_fault ((issue (FindOne (sub_query example_claims)) ?w2)
      \<lparr>users := ?us, trace := ?tr\<rparr>) = None"
    by (simp add: next_fault_def issue_def example_world_def)
  have saved: "save_into example_linked_user [P_admin, P_emails, P_thirdPartyIdentifiers] ?us =
      [example_user, example_external_user, example_linked_user]"
    by (simp add: example_linked_user_def example_new_user_def example_user_def
        example_external_user_def)
  from C8_register_then_one_save [OF nf(1) first_seen(1) reg(1) W1] doc(1,2) f1
  have a: "doPassportLogin example_env example_claims report ?w1 =
      report (Inl (Error ''save failed''))
        (issue (Save example_linked_user)
           ((issue (FindOne (sub_query example_claims)) ?w1)\<lparr>users := ?us, trace := ?tr\<rparr>))"
    "users (doPassportLogin example_env example_claims report ?w1) = ?us"
    by blast+
  from C8_register_then_one_save [OF nf(2) first_seen(2) reg(2) W2] doc(1,3) f2
  have "doPassportLogin example_env example_claims report ?w2 =
      report (Inr example_linked_user)
        ((issue (Save example_linked_user)
           ((issue (FindOne (sub_query example_claims)) ?w2)\<lparr>users := ?us, trace := ?tr\<rparr>))
          \<lparr>users := save_into example_linked_user
             [P_admin, P_emails, P_thirdPartyIdentifiers] ?us\<rparr>)"
    by blast
  then have b: "doPassportLogin example_env example_claims report ?w2 =
      report (Inr example_linked_user)
        ((issue (Save example_linked_user)
           ((issue (FindOne (sub_query example_claims)) ?w2)\<lparr>users := ?us, trace := ?tr\<rparr>))
          \<lparr>users := [example_user, example_external_user, example_linked_user]\<rparr>)"
    by (simp only: saved)
  from C8_register_then_one_save [OF nf(2) first_seen(2) reg(3) W3]
  have c: "doPassportLogin ?E3 example_claims report ?w2 =
      report (Inl (Error ''request is not valid''))
        ((issue (FindOne (sub_query example_claims)) ?w2)
           \<lparr>users := [example_user, example_external_user], trace := ?tr\<rparr>)"
    by blast
  from a b c show ?thesis by blast
qed











section \<open>The breach check\<close>

lemma trace_check:
  "trace (checkPasswordForReuseInBackground E password w) =
     trace w @ [Called (CheckPasswordForReuseInBackground password
                          (breach_check_fails E password))]"
  by (simp add: checkPasswordForReuseInBackground_def)

lemma setUserPasswordInV2_check_follows:
  "\<exists>es. trace (setUserPasswordInV2 E user password report w) = trace w @ es \<and>
        check_follows (\<lambda>v. True) E password es"
  using setUserPasswordInV2_shapes [of E user password report w]
proof (elim disjE exE conjE)
  fix e
  assume "setUserPasswordInV2 E user password report w = report (Inl e) w"
  then show ?thesis
    by (simp add: trace_report check_follows_def results_simps)
next
  fix u hash e
  assume "setUserPasswordInV2 E user password report w =
    report (Inl e) (issue (UpdateOne (by_id u) (set_password_update hash)) w)"
  then show ?thesis
    by (simp add: trace_report trace_issue check_follows_def results_simps)
next
  fix u hash
  assume "setUserPasswordInV2 E user password report w =
        checkPasswordForReuseInBackground E password
          (report
             (Inr (Some (fst (update_first (by_id u) (set_password_update hash) (users w)) = 1)))
             ((issue (UpdateOne (by_id u) (set_password_update hash)) w)
                \<lparr>users := snd (update_first (by_id u) (set_password_update hash) (users w))\<rparr>))"
  then show ?thesis
    by (simp add: trace_report trace_issue trace_check check_follows_def results_simps)
qed

lemma tail_ok_check_follows:
  assumes "tail_ok E password es"
  shows "check_follows (\<lambda>v. v \<noteq> None) E password
           (Called (FindOne q) # Called (UpdateOne q' upd) # es)"
  using assms by (auto simp: tail_ok_def check_follows_def results_simps)

lemma authenticate_check_follows:
  "\<exists>es. trace (authenticate E query password report w) = trace w @ es \<and>
        check_follows (\<lambda>v. v \<noteq> None) E password es"
proof (cases "next_fault w")
  case (Some e)
  then have "authenticate E query password report w = report (Inl e) (issue (FindOne query) w)"
    by (simp add: authenticate_def User_findOne_def authenticate_found_def)
  then show ?thesis
    by (simp add: trace_report trace_issue check_follows_def results_simps)
next
  case None
  show ?thesis
  proof (cases "List.find (matches query) (users w) = None \<or>
         (\<exists>u. List.find (matches query) (users w) = Some u \<and> \<not> truthy (hashedPassword u))")
    case True
    from authenticate_no_account [OF None True, of E password]
    show ?thesis by (simp add: check_follows_def results_simps)
  next
    case False
    then obtain user where user: "List.find (matches query) (users w) = Some user"
      by (cases "List.find (matches query) (users w)") simp_all
    with False have "truthy (hashedPassword user)" by simp
    then obtain hashed where hashed: "hashedPassword user = Some hashed" "hashed \<noteq> []"
      by (cases "hashedPassword user") (simp_all add: truthy_def)
    from authenticate_known_user_shapes [OF user hashed, of E password report]
    show ?thesis
    proof (elim disjE exE conjE)
      fix e
      assume "authenticate E query password report w =
        report (Inl e) (issue (FindOne query) w)"
      then show ?thesis
        by (simp add: trace_report trace_issue check_follows_def results_simps)
    next
      fix match e
      assume "authenticate E query password report w =
          report (Inl e)
            (issue (UpdateOne (epoch_query user) (login_update match (clock w)))
               (issue (FindOne query) w))"
      then show ?thesis
        by (simp add: trace_report trace_issue check_follows_def results_simps)
    next
      fix match i
      let ?W = "(issue (UpdateOne (epoch_query user) (login_update match (clock w)))
                (issue (FindOne query) w))
                \<lparr>users := (users w)[i := (users w ! i)
                   \<lparr>loginEpoch := loginEpoch (users w ! i) + 1,
                    lastFailedLogin :=
                      (if match then lastFailedLogin (users w ! i) else Some (clock w))\<rparr>]\<rparr>"
      assume eq: "authenticate E query password report w =
          authenticate_updated E user hashed password match report (Inr 1) ?W"
      from authenticate_updated_report [of E user hashed password match "Inr 1" ?W]
      obtain es where es: "trace (authenticate E query password report w) = trace ?W @ es"
        "tail_ok E password es"
        using eq by auto
      from es(1) have "trace (authenticate E query password report w) =
          trace w @ (Called (FindOne query) #
            Called (UpdateOne (epoch_query user) (login_update match (clock w))) # es)"
        by (simp add: trace_issue)
      with tail_ok_check_follows [OF es(2)] show ?thesis by blast
    qed
  qed
qed

text \<open>Agreement is kept by every step, whatever the breach check does inside.\<close>

lemma agree_refl: "agree w w"
  by (simp add: agree_def)

lemma agree_report: "agree w w' \<Longrightarrow> agree (report r w) (report r w')"
  by (simp add: agree_def report_def results_append)

lemma agree_thrown: "agree w w' \<Longrightarrow> agree (thrown e w) (thrown e w')"
  by (simp add: agree_def thrown_def results_append)

lemma agree_check:
  "agree w w' \<Longrightarrow>
   agree (checkPasswordForReuseInBackground E password w)
         (checkPasswordForReuseInBackground E' password' w')"
  by (simp add: agree_def checkPasswordForReuseInBackground_def results_append results_simps)

lemma agree_updateOne:
  assumes "\<And>r v v'. agree v v' \<Longrightarrow> agree (k r v) (k' r v')" and "agree w w'"
  shows "agree (updateOne q upd k w) (updateOne q upd k' w')"
proof -
  from assms(2) have same: "next_fault w = next_fault w'" "users w = users w'"
    by (simp_all add: agree_def next_fault_def)
  have step: "agree (issue (UpdateOne q upd) w) (issue (UpdateOne q upd) w')"
    "agree ((issue (UpdateOne q upd) w)\<lparr>users := us\<rparr>)
           ((issue (UpdateOne q upd) w')\<lparr>users := us\<rparr>)" for us
    using assms(2) by (simp_all add: agree_def issue_def results_append)
  show ?thesis
  proof (cases "next_fault w'")
    case None
    with same step(2) assms(1) show ?thesis
      by (simp add: updateOne_ok)
  next
    case (Some e)
    with same step(1) assms(1) show ?thesis
      by (simp add: updateOne_fault)
  qed
qed

lemma agree_findOne:
  assumes "\<And>r v v'. agree v v' \<Longrightarrow> agree (k r v) (k' r v')" and "agree w w'"
  shows "agree (User_findOne q k w) (User_findOne q k' w')"
proof -
  from assms(2) have same: "next_fault w = next_fault w'" "users w = users w'"
    by (simp_all add: agree_def next_fault_def)
  have step: "agree (issue (FindOne q) w) (issue (FindOne q) w')"
    using assms(2) by (simp add: agree_def issue_def results_append)
  show ?thesis
    using same step assms(1)
    by (cases "next_fault w'") (simp_all add: User_findOne_def)
qed

lemma agree_setUserPasswordInV2:
  assumes "\<And>r v v'. agree v v' \<Longrightarrow> agree (k r v) (k' r v')" and "agree w w'"
  shows "agree (setUserPasswordInV2 (E\<lparr>breach_check_fails := f\<rparr>) user password k w)
               (setUserPasswordInV2 E user password k' w')"
proof -
  have updated: "agree (setUserPassword_updated (E\<lparr>breach_check_fails := f\<rparr>) password k r v)
                       (setUserPassword_updated E password k' r v')"
    if "agree v v'" for r v v'
    using that assms(1)
    by (cases r) (simp_all add: setUserPassword_updated_def checkWriteResult_def agree_check)
  have hashed: "agree (setUserPassword_hashed (E\<lparr>breach_check_fails := f\<rparr>) u password k r v)
                      (setUserPassword_hashed E u password k' r v')"
    if "agree v v'" for u r v v'
    using that assms(1) updated
    by (cases r) (simp_all add: setUserPassword_hashed_def agree_updateOne)
  have hp: "agree (hashPassword (E\<lparr>breach_check_fails := f\<rparr>) password
                     (setUserPassword_hashed (E\<lparr>breach_check_fails := f\<rparr>) u password k) w)
                  (hashPassword E password (setUserPassword_hashed E u password k') w')" for u
    using hashed [OF assms(2)]
    by (simp add: hashPassword_def BCRYPT_ROUNDS_def BCRYPT_MINOR_VERSION_def split: sum.split)
  show ?thesis
    using assms hp
    by (simp add: setUserPasswordInV2_def split: option.split)
qed

lemma agree_authenticate_updated:
  assumes "agree w w'"
  shows "agree (authenticate_updated (E\<lparr>breach_check_fails := f\<rparr>) user hashed password match
                  report r w)
               (authenticate_updated E user hashed password match report r w')"
proof -
  have checked: "agree (authenticate_checked (E\<lparr>breach_check_fails := f\<rparr>) user password
                          report r v)
                       (authenticate_checked E user password report r v')"
    if "agree v v'" for r v v'
    using that
    by (cases r) (simp_all add: authenticate_checked_def agree_check agree_report)
  have rounds: "agree (checkRounds (E\<lparr>breach_check_fails := f\<rparr>) user hashed password
                        (authenticate_checked (E\<lparr>breach_check_fails := f\<rparr>) user password
                           report) w)
                     (checkRounds E user hashed password
                        (authenticate_checked E user password report) w')"
    using assms checked agree_setUserPasswordInV2 [OF checked assms]
    by (simp add: checkRounds_def setUserPassword_def BCRYPT_ROUNDS_def agree_thrown
        split: sum.split)
  show ?thesis
    using assms rounds
    by (cases r) (simp_all add: authenticate_updated_def agree_report)
qed

lemma agree_authenticate:
  assumes "agree w w'"
  shows "agree (authenticate (E\<lparr>breach_check_fails := f\<rparr>) query password report w)
               (authenticate E query password report w')"
proof -
  have compared: "agree (authenticate_compared (E\<lparr>breach_check_fails := f\<rparr>) user hashed
                           password report r v)
                        (authenticate_compared E user hashed password report r v')"
    if "agree v v'" for user hashed r v v'
  proof (cases r)
    case (Inl error)
    with that show ?thesis
      by (simp add: authenticate_compared_def agree_report)
  next
    case (Inr match)
    from that have "clock v = clock v'" by (simp add: agree_def)
    with Inr that show ?thesis
      by (simp add: authenticate_compared_def agree_updateOne agree_authenticate_updated)
  qed
  have found: "agree (authenticate_found (E\<lparr>breach_check_fails := f\<rparr>) password report r v)
                     (authenticate_found E password report r v')"
    if "agree v v'" for r v v'
    using that compared
    by (simp add: authenticate_found_def agree_report split: sum.split option.split)
  show ?thesis
    unfolding authenticate_def
    by (rule agree_findOne [OF found assms])
qed


lemma agree_results:
  "agree w w' \<Longrightarrow> results (trace w) = results (trace w') \<and> users w = users w'"
  by (simp add: agree_def)

text \<open>
  Claim C9: in the trace that \<open>authenticate\<close> and \<open>setUserPassword\<close> add, every breach
  check stands after the result handed to the callback, so the result is determined and
  delivered before any check is started; the check is there whenever \<open>authenticate\<close>
  hands back a user and whenever \<open>setUserPassword\<close> hands back a result that is not an
  error. What the check does inside changes neither the result nor the collection: with
  any other behaviour of the check the recorded results and the stored users are the
  same.
\<close>

theorem C9_breach_check_after_result:
  "(\<exists>es. trace (authenticate E query password report w) = trace w @ es \<and>
         check_follows (\<lambda>v. v \<noteq> None) E password es) \<and>
   (\<exists>es. trace (setUserPassword E user2 password2 report w2) = trace w2 @ es \<and>
         check_follows (\<lambda>v. True) E password2 es) \<and>
   results (trace (authenticate (E\<lparr>breach_check_fails := f\<rparr>) query password report w)) =
     results (trace (authenticate E query password report w)) \<and>
   users (authenticate (E\<lparr>breach_check_fails := f\<rparr>) query password report w) =
     users (authenticate E query password report w) \<and>
   results (trace (setUserPassword (E\<lparr>breach_check_fails := f\<rparr>) user2 password2 report w2)) =
     results (trace (setUserPassword E user2 password2 report w2)) \<and>
   users (setUserPassword (E\<lparr>breach_check_fails := f\<rparr>) user2 password2 report w2) =
     users (setUserPassword E user2 password2 report w2)"
proof -
  have a: "\<exists>es. trace (authenticate E query password report w) = trace w @ es \<and>
         check_follows (\<lambda>v. v \<noteq> None) E password es"
    by (rule authenticate_check_follows)
  have b: "\<exists>es. trace (setUserPassword E user2 password2 report w2) = trace w2 @ es \<and>
         check_follows (\<lambda>v. True) E password2 es"
    unfolding setUserPassword_def by (rule setUserPasswordInV2_check_follows)
  have c: "results (trace (authenticate (E\<lparr>breach_check_fails := f\<rparr>) query password report w)) =
     results (trace (authenticate E query password report w)) \<and>
     users (authenticate (E\<lparr>breach_check_fails := f\<rparr>) query password report w) =
     users (authenticate E query password report w)"
    by (rule agree_results [OF agree_authenticate [OF agree_refl]])
  have d: "results (trace (setUserPassword (E\<lparr>breach_check_fails := f\<rparr>) user2 password2
                             report w2)) =
     results (trace (setUserPassword E user2 password2 report w2)) \<and>
     users (setUserPassword (E\<lparr>breach_check_fails := f\<rparr>) user2 password2 report w2) =
     users (setUserPassword E user2 password2 report w2)"
    unfolding setUserPassword_def
    by (rule agree_results [OF agree_setUserPasswordInV2 [OF agree_report agree_refl]])
  from a b c d show ?thesis by blast
qed

theorem C9_breach_check_after_result_witness:
  "trace (authenticate example_env (by_email (js ''ada@example.com''))
     (Some (js ''analytical-engine'')) report example_world) =
     [Called (FindOne (by_email (js ''ada@example.com''))),
      Called (UpdateOne (epoch_query example_user) (login_update True 1000)),
      Called (UpdateOne (by_id example_user)
                (set_password_update (12 # js ''analytical-engine''))),
      Returned (Inr (Some example_user)),
      Called (CheckPasswordForReuseInBackground (Some (js ''analytical-engine'')) False),
      Called (CheckPasswordForReuseInBackground (Some (js ''analytical-engine'')) False)] \<and>
   check_follows (\<lambda>v. v \<noteq> None) example_env (Some (js ''analytical-engine''))
     (trace (authenticate example_env (by_email (js ''ada@example.com''))
        (Some (js ''analytical-engine'')) report example_world)) \<and>
   results (trace (authenticate (example_env\<lparr>breach_check_fails := (\<lambda>password. True)\<rparr>)
     (by_email (js ''ada@example.com'')) (Some (js ''analytical-engine'')) report
     example_world)) = [Inr (Some example_user)] \<and>
   users (authenticate (example_env\<lparr>breach_check_fails := (\<lambda>password. True)\<rparr>)
     (by_email (js ''ada@example.com'')) (Some (js ''analytical-engine'')) report
     example_world) =
     [example_user\<lparr>hashedPassword := Some (12 # js ''analytical-engine''),
                   user_password := None, loginEpoch := 6\<rparr>,
      example_external_user]"
proof -
  note inst = C9_breach_check_after_result [of example_env "by_email (js ''ada@example.com'')"
      "Some (js ''analytical-engine'')" example_world None None example_world
      "\<lambda>password. True"]
  have start: "trace (example_world :: (error + user option) world) = []"
    by (simp add: example_world_def)
  from inst obtain es where es:
    "trace (authenticate example_env (by_email (js ''ada@example.com''))
       (Some (js ''analytical-engine'')) report example_world) =
     trace (example_world :: (error + user option) world) @ es"
    "check_follows (\<lambda>v. v \<noteq> None) example_env (Some (js ''analytical-engine'')) es"
    by blast
  from es have follows: "check_follows (\<lambda>v. v \<noteq> None) example_env
      (Some (js ''analytical-engine''))
      (trace (authenticate example_env (by_email (js ''ada@example.com''))
        (Some (js ''analytical-engine'')) report example_world))"
    by (simp add: start)
  from inst have "results (trace (authenticate
      (example_env\<lparr>breach_check_fails := (\<lambda>password. True)\<rparr>)
      (by_email (js ''ada@example.com'')) (Some (js ''analytical-engine'')) report
      example_world)) =
      results (trace (authenticate example_env (by_email (js ''ada@example.com''))
        (Some (js ''analytical-engine'')) report example_world))"
    and "users (authenticate (example_env\<lparr>breach_check_fails := (\<lambda>password. True)\<rparr>)
      (by_email (js ''ada@example.com'')) (Some (js ''analytical-engine'')) report
      example_world) =
      users (authenticate example_env (by_email (js ''ada@example.com''))
        (Some (js ''analytical-engine'')) report example_world)"
    by blast+
  then have same: "results (trace (authenticate
      (example_env\<lparr>breach_check_fails := (\<lambda>password. True)\<rparr>)
      (by_email (js ''ada@example.com'')) (Some (js ''analytical-engine'')) report
      example_world)) = [Inr (Some example_user)]"
    "users (authenticate (example_env\<lparr>breach_check_fails := (\<lambda>password. True)\<rparr>)
      (by_email (js ''ada@example.com'')) (Some (js ''analytical-engine'')) report
      example_world) =
     [example_user\<lparr>hashedPassword := Some (12 # js ''analytical-engine''),
                   user_password := None, loginEpoch := 6\<rparr>,
      example_external_user]"
    by (simp_all add: example_login results_simps)
  have tr: "trace (authenticate example_env (by_email (js ''ada@example.com''))
     (Some (js ''analytical-engine'')) report example_world) =
     [Called (FindOne (by_email (js ''ada@example.com''))),
      Called (UpdateOne (epoch_query example_user) (login_update True 1000)),
      Called (UpdateOne (by_id example_user)
                (set_password_update (12 # js ''analytical-engine''))),
      Returned (Inr (Some example_user)),
      Called (CheckPasswordForReuseInBackground (Some (js ''analytical-engine'')) False),
      Called (CheckPasswordForReuseInBackground (Some (js ''analytical-engine'')) False)]"
    by (simp add: example_login)
  from tr follows same show ?thesis by blast
qed

end
